theory Spec2Isabelle
  imports Main "HOL-Library.Word"
begin

section \<open>Data model of package cloudtasks (service.go)\<close>

text \<open>
  The package is a thin layer over the Cloud Tasks client. Everything the layer does
  itself is modelled here: building the create request, classifying the provider's
  reply, and the fan-out of the multi-create helpers. What it calls is a parameter:
  the provider client (\<open>taskClient\<close> of the service), the timestamp conversion
  \<open>ptypes.TimestampProto\<close> and \<open>json.Marshal\<close>.

  Go strings are byte strings: \<open>string\<close>. \<open>fmt.Sprintf\<close> with \<open>%s\<close> verbs only is
  concatenation.
\<close>

subsection \<open>Library types\<close>

text \<open>
  \<open>time.Time\<close> is an instant, counted in nanoseconds from January 1, year 1,
  00:00:00 UTC; \<open>IsZero\<close> reports whether it is that instant. \<open>time.Duration\<close> is a
  signed count of nanoseconds. A protobuf duration is identified with the Go duration
  it encodes (\<open>ptypes.DurationProto\<close> cannot fail); a protobuf timestamp is a record of
  its own, since the conversion to it can fail.
\<close>

type_synonym Time = int

type_synonym Duration = int

definition IsZero :: "Time \<Rightarrow> bool" where
  "IsZero t = (t = 0)"

record Timestamp =
  Seconds :: int
  Nanos :: int

text \<open>\<open>codes.Code\<close> of gRPC is a \<open>uint32\<close>; \<open>codes.AlreadyExists\<close> is 6.\<close>

type_synonym Code = "32 word"

definition codes_AlreadyExists :: Code where
  "codes_AlreadyExists = 6"

text \<open>Values stored in the context map \<open>map[string]interface{}\<close> of an error.\<close>

datatype kv_value = KString string | KInt int | KTime Time

subsection \<open>Errors\<close>

text \<open>
  The error taxonomy of the package (the type \<open>Error\<close>, its codes and constructors, the
  type \<open>MultiError\<close>) is declared in another file of the package than \<open>service.go\<close>;
  what follows models it from the specification, which gives an \<open>Error\<close> the parts code,
  message, key-value context and wrapped cause, and names a closed set of codes.
\<close>

text \<open>Modelled from the spec: the codes of \<open>Error\<close>, a closed set.\<close>

datatype ErrorCode = InvalidArgument | AlreadyExists | CreateMultiTaskFailure

text \<open>
  Modelled from the spec: the type \<open>Error\<close> with code, message, context and cause (nil or
  an error). With it the Go interface \<open>error\<close>: an error that carries a gRPC status, any
  other foreign error value, an error wrapped by \<open>xerrors.Errorf\<close> with \<open>%w\<close> (the format
  string is kept, its rendering is not modelled), or an \<open>Error\<close> of this package.
\<close>

datatype Error =
  Error (Code: ErrorCode) (Message: string) (KV: "string \<Rightarrow> kv_value option")
    (cause: "error option")
and error =
    GrpcStatus Code string
  | Opaque string
  | Errorf string error
  | AppError Error

text \<open>
  Modelled from the spec: the value \<open>ErrAlreadyExists\<close>, of which \<open>service.go\<close> reads the
  code only; message and context are left empty.
\<close>

definition ErrAlreadyExists :: Error where
  "ErrAlreadyExists = Error AlreadyExists [] Map.empty None"

text \<open>
  Modelled from the spec: the constructor of an InvalidArgument error from a message,
  a context and a cause.
\<close>

definition NewErrInvalidArgument ::
  "string \<Rightarrow> (string \<Rightarrow> kv_value option) \<Rightarrow> error \<Rightarrow> error" where
  "NewErrInvalidArgument message kv err = AppError (Error InvalidArgument message kv (Some err))"

text \<open>
  Modelled from the spec: the constructor of an AlreadyExists error from a message, a
  context and a cause.
\<close>

definition NewErrAlreadyExists ::
  "string \<Rightarrow> (string \<Rightarrow> kv_value option) \<Rightarrow> error \<Rightarrow> error" where
  "NewErrAlreadyExists message kv err = AppError (Error AlreadyExists message kv (Some err))"

text \<open>
  Modelled from the spec: the constructor of a CreateMultiTaskFailure error from a
  message, a context and a cause.
\<close>

definition NewErrCreateMultiTask ::
  "string \<Rightarrow> (string \<Rightarrow> kv_value option) \<Rightarrow> error \<Rightarrow> error" where
  "NewErrCreateMultiTask message kv err =
     AppError (Error CreateMultiTaskFailure message kv (Some err))"

text \<open>
  Two library functions on errors. \<open>status.FromError\<close> succeeds on an error that
  carries a gRPC status and gives its code. \<open>xerrors.As\<close> with a target of type \<open>*Error\<close>
  walks the chain of wrapped errors and stops at the first \<open>Error\<close> of this package.
\<close>

fun status_FromError :: "error \<Rightarrow> Code option" where
  "status_FromError (GrpcStatus c m) = Some c"
| "status_FromError _ = None"

fun xerrors_As :: "error \<Rightarrow> Error option" where
  "xerrors_As (AppError e) = Some e"
| "xerrors_As (Errorf f e) = xerrors_As e"
| "xerrors_As (GrpcStatus c m) = None"
| "xerrors_As (Opaque m) = None"

text \<open>
  Modelled from the spec: the type \<open>MultiError\<close>, an ordered collection of the failures
  appended to it.
\<close>

type_synonym MultiError = "error list"

text \<open>Modelled from the spec: \<open>Append\<close> adds one failure at the end of the collection.\<close>

definition Append :: "MultiError \<Rightarrow> error \<Rightarrow> MultiError" where
  "Append merr e = merr @ [e]"

text \<open>
  Modelled from the spec: \<open>ErrorOrNil\<close> exposes the collection as a single error only if
  it is not empty, and is nil otherwise.
\<close>

definition ErrorOrNil :: "MultiError \<Rightarrow> MultiError option" where
  "ErrorOrNil merr = (if length merr < 1 then None else Some merr)"

subsection \<open>Options\<close>

text \<open>
  Modelled from the spec: the option record of a creation, declared in another file of
  the package; its one field says whether an already-exists rejection counts as
  success. An option is a function on this record: \<open>CreateTask\<close> applies each option it
  is given, in turn, to a record of defaults.
\<close>

record createTaskOptions =
  ignoreAlreadyExists :: bool

type_synonym CreateTaskOptions = "createTaskOptions \<Rightarrow> createTaskOptions"

text \<open>
  Modelled from the spec: the only option defined, which switches on "ignore
  already-exists as success".
\<close>

definition WithIgnoreAlreadyExists :: CreateTaskOptions where
  "WithIgnoreAlreadyExists ops = ops\<lparr>ignoreAlreadyExists := True\<rparr>"

subsection \<open>Requests and tasks\<close>

text \<open>
  The protobuf messages of the provider's API, with the fields \<open>service.go\<close> sets or
  reads. A message field that is a pointer is an option (nil is \<open>None\<close>), a string field
  that is unset is the empty string, a header map is a map (nil is the empty map), and
  the \<open>oneof\<close> of the authorization header is a datatype.
\<close>

datatype HttpMethod =
  HTTP_METHOD_UNSPECIFIED | POST | GET | HEAD | PUT | DELETE | PATCH | OPTIONS

record OidcToken =
  ServiceAccountEmail :: string
  Audience :: string

record OAuthToken =
  ServiceAccountEmail :: string
  Scope :: string

datatype AuthorizationHeader =
  HttpRequest_OauthToken OAuthToken | HttpRequest_OidcToken OidcToken

record HttpRequest =
  Url :: string
  HttpMethod :: HttpMethod
  Headers :: "string \<Rightarrow> string option"
  Body :: string
  AuthorizationHeader :: "AuthorizationHeader option"

record Task =
  Name :: string
  MessageType :: "HttpRequest option"
  ScheduleTime :: "Timestamp option"
  DispatchDeadline :: "Duration option"

record CreateTaskRequest =
  Parent :: string
  Task :: Task

record Queue =
  ProjectID :: string
  Region :: string
  Name :: string

text \<open>
  The service holds the provider client and the service-account email. The client is
  a function of the provider's state: it answers a create request with an error or
  with the created task, and leaves the provider in a new state. The world the
  package acts on is that state together with the log of the requests handed to the
  client so far.
\<close>

record 'p Service =
  taskClient :: "'p \<Rightarrow> CreateTaskRequest \<Rightarrow> (error + Task) \<times> 'p"
  serviceAccountEmail :: string

record 'p World =
  provider :: 'p
  sent :: "CreateTaskRequest list"

definition taskClient_CreateTask ::
  "'p Service \<Rightarrow> 'p World \<Rightarrow> CreateTaskRequest \<Rightarrow> (error + Task) \<times> 'p World" where
  "taskClient_CreateTask s w taskReq =
     (case taskClient s (provider w) taskReq of
        (res, p') \<Rightarrow> (res, \<lparr>provider = p', sent = sent w @ [taskReq]\<rparr>))"

section \<open>Operations\<close>

subsection \<open>Queue\<close>

definition Parent :: "Queue \<Rightarrow> string" where
  "Parent q =
     ''projects/'' @ ProjectID q @ ''/locations/'' @ Region q @ ''/queues/'' @ Queue.Name q"

subsection \<open>CreateTask\<close>

text \<open>
  \<open>CreateTask\<close> in two consecutive blocks of its body. \<open>buildTaskReq\<close> is the
  construction of the request (the assignments up to the call of the client): the
  parent path, the message, the full task name when a task name is given, the
  schedule time when the scheduled time is not zero (the conversion may fail, which
  ends the function with an InvalidArgument error), the dispatch deadline when the
  deadline is not zero. \<open>CreateTask\<close> folds the options, builds the request, hands it
  to the client and classifies the reply.
\<close>

definition buildTaskReq ::
  "(Time \<Rightarrow> error + Timestamp) \<Rightarrow> Queue \<Rightarrow> string \<Rightarrow> HttpRequest option \<Rightarrow> Time \<Rightarrow> Duration
     \<Rightarrow> error + CreateTaskRequest" where
  "buildTaskReq TimestampProto queue taskName req scheduledTime deadline =
     (let taskReq = \<lparr>CreateTaskRequest.Parent = Parent queue,
                     Task = \<lparr>Task.Name = [], MessageType = req,
                             ScheduleTime = None, DispatchDeadline = None\<rparr>\<rparr>;
          taskReq =
            (if length taskName > 0
             then taskReq\<lparr>Task := (Task taskReq)\<lparr>Task.Name :=
                    ''projects/'' @ ProjectID queue @ ''/locations/'' @ Region queue @
                    ''/queues/'' @ Queue.Name queue @ ''/tasks/'' @ taskName\<rparr>\<rparr>
             else taskReq)
      in case (if \<not> IsZero scheduledTime
               then (case TimestampProto scheduledTime of
                       Inl err \<Rightarrow>
                         Inl (NewErrInvalidArgument ''invalid ScheduleTime''
                                [''ScheduledTime'' \<mapsto> KTime scheduledTime] err)
                     | Inr stpb \<Rightarrow>
                         Inr (taskReq\<lparr>Task := (Task taskReq)\<lparr>ScheduleTime := Some stpb\<rparr>\<rparr>))
               else Inr taskReq) of
           Inl e \<Rightarrow> Inl e
         | Inr taskReq \<Rightarrow>
             Inr (if deadline \<noteq> 0
                  then taskReq\<lparr>Task := (Task taskReq)\<lparr>DispatchDeadline := Some deadline\<rparr>\<rparr>
                  else taskReq))"

definition CreateTask ::
  "(Time \<Rightarrow> error + Timestamp) \<Rightarrow> 'p Service \<Rightarrow> 'p World \<Rightarrow> Queue \<Rightarrow> string
     \<Rightarrow> HttpRequest option \<Rightarrow> Time \<Rightarrow> Duration \<Rightarrow> CreateTaskOptions list
     \<Rightarrow> (error + Task) \<times> 'p World" where
  "CreateTask TimestampProto s w queue taskName req scheduledTime deadline ops =
     (let opt = fold (\<lambda>f opt. f opt) ops \<lparr>ignoreAlreadyExists = False\<rparr>
      in case buildTaskReq TimestampProto queue taskName req scheduledTime deadline of
           Inl e \<Rightarrow> (Inl e, w)
         | Inr taskReq \<Rightarrow>
             (case taskClient_CreateTask s w taskReq of
                (Inr task, w') \<Rightarrow> (Inr task, w')
              | (Inl err, w') \<Rightarrow>
                  (case status_FromError err of
                     Some c \<Rightarrow>
                       if c = codes_AlreadyExists
                       then (if ignoreAlreadyExists opt
                             then (Inr (Task taskReq), w')
                             else (Inl (NewErrAlreadyExists
                                          (Task.Name (Task taskReq) @ '' is already exists.'')
                                          [''taskName'' \<mapsto> KString (Task.Name (Task taskReq))]
                                          err), w'))
                       else (Inl err, w')
                   | None \<Rightarrow> (Inl err, w'))))"

subsection \<open>JSON POST tasks and GET tasks\<close>

text \<open>
  The body of a \<open>JsonPostTask\<close> is an \<open>interface{}\<close>: a type parameter, with
  \<open>json.Marshal\<close> on it a parameter of the functions. A Go function with results
  \<open>(string, error)\<close> returns the pair; the string is empty where the source returns
  \<open>""\<close> with an error.
\<close>

record 'b JsonPostTask =
  Audience :: string
  RelativeURI :: string
  ScheduledTime :: Time
  Deadline :: Duration
  Body :: 'b
  Name :: string

record GetTask =
  Audience :: string
  Headers :: "string \<Rightarrow> string option"
  RelativeURI :: string
  ScheduledTime :: Time
  Deadline :: Duration
  Name :: string

definition CreateJsonPostTask ::
  "(Time \<Rightarrow> error + Timestamp) \<Rightarrow> ('b \<Rightarrow> error + string) \<Rightarrow> 'p Service \<Rightarrow> 'p World \<Rightarrow> Queue
     \<Rightarrow> 'b JsonPostTask \<Rightarrow> CreateTaskOptions list \<Rightarrow> (string \<times> error option) \<times> 'p World" where
  "CreateJsonPostTask TimestampProto json_Marshal s w queue task ops =
     (case json_Marshal (JsonPostTask.Body task) of
        Inl err \<Rightarrow> (([], Some (Errorf ''failed json.Marshal(). body=%+v : %w'' err)), w)
      | Inr body \<Rightarrow>
          (case CreateTask TimestampProto s w queue (JsonPostTask.Name task)
                  (Some \<lparr>Url = JsonPostTask.RelativeURI task,
                         HttpMethod = POST,
                         HttpRequest.Headers = [''Content-Type'' \<mapsto> ''application/json''],
                         HttpRequest.Body = body,
                         AuthorizationHeader = Some (HttpRequest_OidcToken
                           \<lparr>OidcToken.ServiceAccountEmail = serviceAccountEmail s,
                            OidcToken.Audience = JsonPostTask.Audience task\<rparr>)\<rparr>)
                  (JsonPostTask.ScheduledTime task) (JsonPostTask.Deadline task) ops of
             (Inl err, w') \<Rightarrow>
               (([], Some (Errorf ''failed CreateJsonPostTask(). queue=%+v, body=%+v : %w'' err)), w')
           | (Inr got, w') \<Rightarrow> ((Task.Name got, None), w')))"

definition CreateGetTask ::
  "(Time \<Rightarrow> error + Timestamp) \<Rightarrow> 'p Service \<Rightarrow> 'p World \<Rightarrow> Queue
     \<Rightarrow> GetTask \<Rightarrow> CreateTaskOptions list \<Rightarrow> (string \<times> error option) \<times> 'p World" where
  "CreateGetTask TimestampProto s w queue task ops =
     (case CreateTask TimestampProto s w queue (GetTask.Name task)
             (Some \<lparr>Url = GetTask.RelativeURI task,
                    HttpMethod = GET,
                    HttpRequest.Headers = GetTask.Headers task,
                    HttpRequest.Body = [],
                    AuthorizationHeader = Some (HttpRequest_OidcToken
                      \<lparr>OidcToken.ServiceAccountEmail = serviceAccountEmail s,
                       OidcToken.Audience = GetTask.Audience task\<rparr>)\<rparr>)
             (GetTask.ScheduledTime task) (GetTask.Deadline task) ops of
        (Inl err, w') \<Rightarrow>
          (([], Some (Errorf ''failed CreateJsonPostTask(). queue=%+v, url=%s : %w'' err)), w')
      | (Inr got, w') \<Rightarrow> ((Task.Name got, None), w'))"

subsection \<open>Fan-out\<close>

text \<open>
  A multi-create starts one goroutine per input task and waits for all of them. The
  body of goroutine \<open>i\<close> has two actions on shared state: the single-create (the
  remote call), and the collection of its outcome: the write of \<open>results[i]\<close>, a slot
  no other goroutine touches, and the append to the error aggregate, which
  \<open>MultiError\<close> serialises. A goroutine is therefore in one of three states, and a
  run is a schedule: the list of goroutine numbers in the order in which they take
  their next action. \<open>wg.Wait\<close> returns once every goroutine has finished; a schedule
  that leaves one unfinished is not a run of the program, and the model gives \<open>None\<close>
  for it.
\<close>

datatype pc = NotStarted | Called "string \<times> error option" | Finished "string \<times> error option"

record 'p fanout =
  world :: "'p World"
  pcs :: "pc list"
  results :: "string list"
  merr :: MultiError

text \<open>The rest of the goroutine body of \<open>CreateJsonPostTaskMulti\<close>, after the single-create.\<close>

definition collect_JsonPostTask ::
  "nat \<Rightarrow> 'b JsonPostTask \<Rightarrow> string \<times> error option \<Rightarrow> string list \<times> MultiError
     \<Rightarrow> string list \<times> MultiError" where
  "collect_JsonPostTask i task r acc =
     (case r of (tn, err) \<Rightarrow> case acc of (rs, m) \<Rightarrow>
        (case err of
           None \<Rightarrow> (rs[i := tn], m)
         | Some e \<Rightarrow>
             (case xerrors_As e of
                Some appErr \<Rightarrow>
                  if Code appErr = Code ErrAlreadyExists
                  then (rs,
                        Append m (AppError (Error (Code appErr) (Message appErr)
                                       ((KV appErr)(''index'' \<mapsto> KInt (int i))) (cause appErr))))
                  else (rs[i := tn],
                        Append m (NewErrCreateMultiTask ''failed CreateJsonPostTask''
                          [''index'' \<mapsto> KInt (int i),
                           ''taskName'' \<mapsto> KString (JsonPostTask.Name task),
                           ''URI'' \<mapsto> KString (JsonPostTask.RelativeURI task)] e))
              | None \<Rightarrow>
                  (rs[i := tn],
                   Append m (NewErrCreateMultiTask ''failed CreateJsonPostTask''
                     [''index'' \<mapsto> KInt (int i),
                      ''taskName'' \<mapsto> KString (JsonPostTask.Name task),
                      ''URI'' \<mapsto> KString (JsonPostTask.RelativeURI task)] e)))))"

text \<open>The rest of the goroutine body of \<open>CreateGetTaskMulti\<close>.\<close>

definition collect_GetTask ::
  "nat \<Rightarrow> GetTask \<Rightarrow> string \<times> error option \<Rightarrow> string list \<times> MultiError
     \<Rightarrow> string list \<times> MultiError" where
  "collect_GetTask i task r acc =
     (case r of (tn, err) \<Rightarrow> case acc of (rs, m) \<Rightarrow>
        (case err of
           None \<Rightarrow> (rs[i := tn], m)
         | Some e \<Rightarrow>
             (case xerrors_As e of
                Some appErr \<Rightarrow>
                  if Code appErr = Code ErrAlreadyExists
                  then (rs,
                        Append m (AppError (Error (Code appErr) (Message appErr)
                                       ((KV appErr)(''index'' \<mapsto> KInt (int i))) (cause appErr))))
                  else (rs[i := tn],
                        Append m (NewErrCreateMultiTask ''failed CreateGetTask''
                          [''index'' \<mapsto> KInt (int i),
                           ''taskName'' \<mapsto> KString (GetTask.Name task),
                           ''URI'' \<mapsto> KString (GetTask.RelativeURI task)] e))
              | None \<Rightarrow>
                  (rs[i := tn],
                   Append m (NewErrCreateMultiTask ''failed CreateGetTask''
                     [''index'' \<mapsto> KInt (int i),
                      ''taskName'' \<mapsto> KString (GetTask.Name task),
                      ''URI'' \<mapsto> KString (GetTask.RelativeURI task)] e)))))"

text \<open>
  One scheduling step: goroutine \<open>i\<close> takes its next action. A number that names no
  goroutine, or a goroutine that has finished, takes none.
\<close>

definition fan_step ::
  "(nat \<Rightarrow> 'p World \<Rightarrow> (string \<times> error option) \<times> 'p World)
     \<Rightarrow> (nat \<Rightarrow> string \<times> error option \<Rightarrow> string list \<times> MultiError \<Rightarrow> string list \<times> MultiError)
     \<Rightarrow> nat \<Rightarrow> 'p fanout \<Rightarrow> 'p fanout" where
  "fan_step create collect i st =
     (if i < length (pcs st)
      then (case pcs st ! i of
              NotStarted \<Rightarrow>
                (case create i (world st) of
                   (r, w') \<Rightarrow> st\<lparr>world := w', pcs := (pcs st)[i := Called r]\<rparr>)
            | Called r \<Rightarrow>
                (case collect i r (results st, merr st) of
                   (rs, m) \<Rightarrow> st\<lparr>pcs := (pcs st)[i := Finished r], results := rs, merr := m\<rparr>)
            | Finished r \<Rightarrow> st)
      else st)"

definition fan_init :: "nat \<Rightarrow> 'p World \<Rightarrow> 'p fanout" where
  "fan_init n w =
     \<lparr>world = w, pcs = replicate n NotStarted, results = replicate n [], merr = []\<rparr>"

fun is_Finished :: "pc \<Rightarrow> bool" where
  "is_Finished (Finished r) = True"
| "is_Finished _ = False"

definition fan_wait ::
  "'p fanout \<Rightarrow> ((string list \<times> MultiError option) \<times> 'p World) option" where
  "fan_wait st =
     (if list_all is_Finished (pcs st)
      then Some ((results st, ErrorOrNil (merr st)), world st)
      else None)"

text \<open>A schedule in which every goroutine gets both of its turns.\<close>

definition complete :: "nat \<Rightarrow> nat list \<Rightarrow> bool" where
  "complete n sched = list_all (\<lambda>i. 2 \<le> count_list sched i) [0..<n]"

definition run_JsonPostTaskMulti ::
  "(Time \<Rightarrow> error + Timestamp) \<Rightarrow> ('b \<Rightarrow> error + string) \<Rightarrow> 'p Service \<Rightarrow> 'p World \<Rightarrow> Queue
     \<Rightarrow> 'b JsonPostTask list \<Rightarrow> CreateTaskOptions list \<Rightarrow> nat list \<Rightarrow> 'p fanout" where
  "run_JsonPostTaskMulti TimestampProto json_Marshal s w queue tasks ops sched =
     fold (fan_step
             (\<lambda>i w. CreateJsonPostTask TimestampProto json_Marshal s w queue (tasks ! i) ops)
             (\<lambda>i. collect_JsonPostTask i (tasks ! i)))
          sched (fan_init (length tasks) w)"

definition CreateJsonPostTaskMulti ::
  "(Time \<Rightarrow> error + Timestamp) \<Rightarrow> ('b \<Rightarrow> error + string) \<Rightarrow> 'p Service \<Rightarrow> 'p World \<Rightarrow> Queue
     \<Rightarrow> 'b JsonPostTask list \<Rightarrow> CreateTaskOptions list \<Rightarrow> nat list
     \<Rightarrow> ((string list \<times> MultiError option) \<times> 'p World) option" where
  "CreateJsonPostTaskMulti TimestampProto json_Marshal s w queue tasks ops sched =
     fan_wait (run_JsonPostTaskMulti TimestampProto json_Marshal s w queue tasks ops sched)"

definition run_GetTaskMulti ::
  "(Time \<Rightarrow> error + Timestamp) \<Rightarrow> 'p Service \<Rightarrow> 'p World \<Rightarrow> Queue
     \<Rightarrow> GetTask list \<Rightarrow> CreateTaskOptions list \<Rightarrow> nat list \<Rightarrow> 'p fanout" where
  "run_GetTaskMulti TimestampProto s w queue tasks ops sched =
     fold (fan_step
             (\<lambda>i w. CreateGetTask TimestampProto s w queue (tasks ! i) ops)
             (\<lambda>i. collect_GetTask i (tasks ! i)))
          sched (fan_init (length tasks) w)"

definition CreateGetTaskMulti ::
  "(Time \<Rightarrow> error + Timestamp) \<Rightarrow> 'p Service \<Rightarrow> 'p World \<Rightarrow> Queue
     \<Rightarrow> GetTask list \<Rightarrow> CreateTaskOptions list \<Rightarrow> nat list
     \<Rightarrow> ((string list \<times> MultiError option) \<times> 'p World) option" where
  "CreateGetTaskMulti TimestampProto s w queue tasks ops sched =
     fan_wait (run_GetTaskMulti TimestampProto s w queue tasks ops sched)"

subsection \<open>One create after another\<close>

text \<open>
  The reference the fan-out is compared with. A schedule gives every goroutine a first
  turn (its single-create) and a second turn (the collection of the outcome);
  \<open>call_order\<close> lists the goroutines in the order of their first turns and
  \<open>collect_order\<close> in the order of their second turns. \<open>seq_creates\<close> runs the
  single-creates one after another in a given order, each in the world the one before
  left, and records for every task what its single-create returned.
\<close>

definition turn_step :: "nat \<Rightarrow> nat \<Rightarrow> nat list \<times> nat list \<Rightarrow> nat list \<times> nat list" where
  "turn_step n i t =
     (case t of (once, twice) \<Rightarrow>
        if i < n
        then (if i \<notin> set once then (once @ [i], twice)
              else if i \<notin> set twice then (once, twice @ [i])
              else (once, twice))
        else (once, twice))"

definition turns :: "nat \<Rightarrow> nat list \<Rightarrow> nat list \<times> nat list" where
  "turns n sched = fold (turn_step n) sched ([], [])"

definition call_order :: "nat \<Rightarrow> nat list \<Rightarrow> nat list" where
  "call_order n sched = fst (turns n sched)"

definition collect_order :: "nat \<Rightarrow> nat list \<Rightarrow> nat list" where
  "collect_order n sched = snd (turns n sched)"

definition create_step ::
  "(nat \<Rightarrow> 'p World \<Rightarrow> (string \<times> error option) \<times> 'p World) \<Rightarrow> nat
     \<Rightarrow> (string \<times> error option) list \<times> 'p World \<Rightarrow> (string \<times> error option) list \<times> 'p World" where
  "create_step create i a =
     (case a of (outs, w) \<Rightarrow> case create i w of (r, w') \<Rightarrow> (outs[i := r], w'))"

definition seq_creates ::
  "(nat \<Rightarrow> 'p World \<Rightarrow> (string \<times> error option) \<times> 'p World) \<Rightarrow> nat \<Rightarrow> nat list \<Rightarrow> 'p World
     \<Rightarrow> (string \<times> error option) list \<times> 'p World" where
  "seq_creates create n order w = fold (create_step create) order (replicate n ([], None), w)"

subsection \<open>A test double\<close>

text \<open>
  Stand-ins for the collaborators, to run the operations on concrete inputs. The
  provider keeps the names of the tasks in the queue: it names an unnamed task
  itself, rejects a name it holds with status AlreadyExists, and accepts any other.
  The timestamp conversion refuses an instant before year 1 or from year 10000 on.
  The body type is \<open>bool\<close>, serialised as JSON does.
\<close>

definition fake_taskClient ::
  "string list \<Rightarrow> CreateTaskRequest \<Rightarrow> (error + Task) \<times> string list" where
  "fake_taskClient names r =
     (if Task.Name (Task r) = []
      then (let nm = CreateTaskRequest.Parent r @ ''/tasks/'' @ replicate (Suc (length names)) CHR ''7''
            in (Inr ((Task r)\<lparr>Task.Name := nm\<rparr>), nm # names))
      else if Task.Name (Task r) \<in> set names
      then (Inl (GrpcStatus codes_AlreadyExists ''task already exists''), names)
      else (Inr (Task r), Task.Name (Task r) # names))"

definition fake_Service :: "string list Service" where
  "fake_Service =
     \<lparr>taskClient = fake_taskClient, serviceAccountEmail = ''ci@appspot.gserviceaccount.com''\<rparr>"

definition fake_TimestampProto :: "Time \<Rightarrow> error + Timestamp" where
  "fake_TimestampProto t =
     (if t < 0 then Inl (Opaque ''timestamp: before 0001-01-01'')
      else if 315537897600 * 1000000000 \<le> t then Inl (Opaque ''timestamp: after 10000-01-01'')
      else Inr \<lparr>Seconds = t div 1000000000 - 62135596800, Nanos = t mod 1000000000\<rparr>)"

definition fake_Marshal :: "bool \<Rightarrow> error + string" where
  "fake_Marshal b = Inr (if b then ''true'' else ''false'')"

definition ci_queue :: Queue where
  "ci_queue = \<lparr>ProjectID = ''ci'', Region = ''asia'', Queue.Name = ''box''\<rparr>"

definition fresh_World :: "string list World" where
  "fresh_World = \<lparr>provider = [], sent = []\<rparr>"

text \<open>
  Two more providers: one that takes every task for a duplicate, and a mock transport
  that accepts every request and answers with the task as it was submitted.
\<close>

definition dup_Service :: "unit Service" where
  "dup_Service =
     \<lparr>taskClient = (\<lambda>p r. (Inl (GrpcStatus codes_AlreadyExists ''task already exists''), p)),
      serviceAccountEmail = ''ci@appspot.gserviceaccount.com''\<rparr>"

definition echo_Service :: "unit Service" where
  "echo_Service =
     \<lparr>taskClient = (\<lambda>p r. (Inr (Task r), p)),
      serviceAccountEmail = ''ci@appspot.gserviceaccount.com''\<rparr>"

definition unit_World :: "unit World" where
  "unit_World = \<lparr>provider = (), sent = []\<rparr>"

definition get_task :: "string \<Rightarrow> GetTask" where
  "get_task name =
     \<lparr>GetTask.Audience = [], GetTask.Headers = Map.empty, GetTask.RelativeURI = ''/run'',
      GetTask.ScheduledTime = 0, GetTask.Deadline = 0, GetTask.Name = name\<rparr>"

definition post_task :: "string \<Rightarrow> bool JsonPostTask" where
  "post_task name =
     \<lparr>JsonPostTask.Audience = [], JsonPostTask.RelativeURI = ''/run'',
      JsonPostTask.ScheduledTime = 0, JsonPostTask.Deadline = 0, JsonPostTask.Body = True,
      JsonPostTask.Name = name\<rparr>"

section \<open>Notions for the proofs\<close>

text \<open>
  \<open>appended collect i r\<close> is what goroutine \<open>i\<close> appends to the aggregate on the outcome
  \<open>r\<close> of its single-create.
\<close>

definition appended ::
  "(nat \<Rightarrow> string \<times> error option \<Rightarrow> string list \<times> MultiError \<Rightarrow> string list \<times> MultiError)
     \<Rightarrow> nat \<Rightarrow> string \<times> error option \<Rightarrow> error list" where
  "appended collect i r = snd (collect i r ([], []))"

text \<open>
  What the proofs need of a goroutine body: the collection appends to the aggregate
  whatever was there, appends nothing exactly on success, and writes its own slot or
  (on a failure only) leaves the slots alone; a single-create that fails returns the
  empty string.
\<close>

definition collect_ok ::
  "(nat \<Rightarrow> string \<times> error option \<Rightarrow> string list \<times> MultiError \<Rightarrow> string list \<times> MultiError) \<Rightarrow> bool" where
  "collect_ok collect =
     (\<forall>i tn err rs m.
        snd (collect i (tn, err) (rs, m)) = m @ appended collect i (tn, err) \<and>
        (appended collect i (tn, err) = []) = (err = None) \<and>
        (fst (collect i (tn, err) (rs, m)) = rs[i := tn] \<or>
         err \<noteq> None \<and> fst (collect i (tn, err) (rs, m)) = rs))"

definition create_ok ::
  "(nat \<Rightarrow> 'p World \<Rightarrow> (string \<times> error option) \<times> 'p World) \<Rightarrow> bool" where
  "create_ok create = (\<forall>i w. snd (fst (create i w)) \<noteq> None \<longrightarrow> fst (fst (create i w)) = [])"

text \<open>
  The state of a run after a schedule, in terms of the reference: the world is the one
  the single-creates left, run in the order of the first turns; a goroutine is where its
  number of turns puts it, with the outcome recorded for it; a slot is filled once its
  goroutine has had its second turn; the aggregate holds what the goroutines appended,
  in the order of the second turns.
\<close>

definition fan_rel ::
  "(nat \<Rightarrow> 'p World \<Rightarrow> (string \<times> error option) \<times> 'p World)
     \<Rightarrow> (nat \<Rightarrow> string \<times> error option \<Rightarrow> string list \<times> MultiError \<Rightarrow> string list \<times> MultiError)
     \<Rightarrow> nat \<Rightarrow> 'p World \<Rightarrow> nat list \<Rightarrow> 'p fanout \<Rightarrow> bool" where
  "fan_rel create collect n w sched st =
     (case turns n sched of (once, twice) \<Rightarrow>
      case seq_creates create n once w of (outs, w') \<Rightarrow>
        world st = w' \<and> length (pcs st) = n \<and> length (results st) = n \<and>
        (\<forall>j<n. pcs st ! j =
                 (if j \<in> set twice then Finished (outs ! j)
                  else if j \<in> set once then Called (outs ! j) else NotStarted)) \<and>
        (\<forall>j<n. results st ! j = (if j \<in> set twice then fst (outs ! j) else [])) \<and>
        merr st = concat (map (\<lambda>i. appended collect i (outs ! i)) twice))"

section \<open>Lemmas\<close>

subsection \<open>Building and submitting the request\<close>

lemma buildTaskReq_ok:
  assumes "IsZero t \<or> tsp t = Inr ts"
  shows "buildTaskReq tsp q taskName req t d =
     Inr \<lparr>CreateTaskRequest.Parent = Parent q,
          Task = \<lparr>Task.Name = (if taskName = [] then []
                               else ''projects/'' @ ProjectID q @ ''/locations/'' @ Region q @
                                    ''/queues/'' @ Queue.Name q @ ''/tasks/'' @ taskName),
                  MessageType = req,
                  ScheduleTime = (if IsZero t then None else Some ts),
                  DispatchDeadline = (if d = 0 then None else Some d)\<rparr>\<rparr>"
  using assms by (auto simp: buildTaskReq_def Let_def)

lemma buildTaskReq_fail:
  assumes "\<not> IsZero t" "tsp t = Inl e"
  shows "buildTaskReq tsp q taskName req t d =
     Inl (NewErrInvalidArgument ''invalid ScheduleTime'' [''ScheduledTime'' \<mapsto> KTime t] e)"
  using assms by (simp add: buildTaskReq_def Let_def)

lemma buildTaskReq_name:
  assumes "buildTaskReq tsp q taskName req t d = Inr r"
  shows "Task.Name (Task r) =
       (if taskName = [] then []
        else ''projects/'' @ ProjectID q @ ''/locations/'' @ Region q @
             ''/queues/'' @ Queue.Name q @ ''/tasks/'' @ taskName)"
  using assms
  by (auto simp: buildTaskReq_def Let_def split: sum.splits if_splits)

lemma CreateTask_sent:
  assumes "buildTaskReq tsp q taskName req t d = Inr r"
  shows "sent (snd (CreateTask tsp s w q taskName req t d ops)) = sent w @ [r]"
  using assms
  by (auto simp: CreateTask_def taskClient_CreateTask_def Let_def
           split: prod.splits sum.splits option.splits)

lemma CreateTask_unsent:
  assumes "buildTaskReq tsp q taskName req t d = Inl e"
  shows "CreateTask tsp s w q taskName req t d ops = (Inl e, w)"
  using assms by (simp add: CreateTask_def)

lemma fold_options:
  "set ops \<subseteq> {WithIgnoreAlreadyExists} \<Longrightarrow>
   ignoreAlreadyExists (fold (\<lambda>f opt. f opt) ops opt) = (ignoreAlreadyExists opt \<or> ops \<noteq> [])"
  by (induction ops arbitrary: opt) (auto simp: WithIgnoreAlreadyExists_def)

lemma CreateTask_success_cases:
  assumes "fst (CreateTask tsp s w q taskName req t d ops) = Inr task"
  shows "\<exists>taskReq. buildTaskReq tsp q taskName req t d = Inr taskReq \<and>
           ((\<exists>p'. taskClient s (provider w) taskReq = (Inr task, p')) \<or>
            (\<exists>err p'. taskClient s (provider w) taskReq = (Inl err, p') \<and>
                      status_FromError err = Some codes_AlreadyExists) \<and>
            task = Task taskReq)"
  using assms
  by (auto simp: CreateTask_def taskClient_CreateTask_def Let_def
           split: sum.splits prod.splits option.splits if_splits)

lemma CreateTask_created_name:
  assumes names: "\<forall>p r t p'. taskClient s p r = (Inr t, p') \<longrightarrow> Task.Name t \<noteq> []"
    and dups: "\<forall>p r e p'. taskClient s p r = (Inl e, p') \<longrightarrow>
                 status_FromError e = Some codes_AlreadyExists \<longrightarrow> Task.Name (Task r) \<noteq> []"
    and ok: "fst (CreateTask tsp s w q taskName req t d ops) = Inr task"
  shows "Task.Name task \<noteq> [] \<and>
         (\<exists>taskReq. buildTaskReq tsp q taskName req t d = Inr taskReq \<and>
            ((\<exists>p'. taskClient s (provider w) taskReq = (Inr task, p')) \<or>
             (\<exists>err p'. taskClient s (provider w) taskReq = (Inl err, p') \<and>
                       status_FromError err = Some codes_AlreadyExists) \<and>
             task = Task taskReq \<and> taskName \<noteq> [] \<and>
             Task.Name task =
               ''projects/'' @ ProjectID q @ ''/locations/'' @ Region q @
               ''/queues/'' @ Queue.Name q @ ''/tasks/'' @ taskName))"
proof -
  from CreateTask_success_cases[OF ok] obtain taskReq where
    b: "buildTaskReq tsp q taskName req t d = Inr taskReq"
    and c: "(\<exists>p'. taskClient s (provider w) taskReq = (Inr task, p')) \<or>
            (\<exists>err p'. taskClient s (provider w) taskReq = (Inl err, p') \<and>
                      status_FromError err = Some codes_AlreadyExists) \<and>
            task = Task taskReq"
    by blast
  from c show ?thesis
  proof
    assume a: "\<exists>p'. taskClient s (provider w) taskReq = (Inr task, p')"
    with names have "Task.Name task \<noteq> []" by blast
    with a b show ?thesis by blast
  next
    assume a: "(\<exists>err p'. taskClient s (provider w) taskReq = (Inl err, p') \<and>
                      status_FromError err = Some codes_AlreadyExists) \<and>
            task = Task taskReq"
    with dups have n: "Task.Name (Task taskReq) \<noteq> []" by blast
    from buildTaskReq_name[OF b] n have tn: "taskName \<noteq> []"
      and f: "Task.Name (Task taskReq) =
               ''projects/'' @ ProjectID q @ ''/locations/'' @ Region q @
               ''/queues/'' @ Queue.Name q @ ''/tasks/'' @ taskName"
      by (auto split: if_splits)
    from a n tn f b show ?thesis by blast
  qed
qed

lemma CreateJsonPostTask_world:
  assumes "jm (JsonPostTask.Body task) = Inr body"
  shows "snd (CreateJsonPostTask tsp jm s w q task ops) =
         snd (CreateTask tsp s w q (JsonPostTask.Name task)
                (Some \<lparr>Url = JsonPostTask.RelativeURI task,
                       HttpMethod = POST,
                       HttpRequest.Headers = [''Content-Type'' \<mapsto> ''application/json''],
                       HttpRequest.Body = body,
                       AuthorizationHeader = Some (HttpRequest_OidcToken
                         \<lparr>OidcToken.ServiceAccountEmail = serviceAccountEmail s,
                          OidcToken.Audience = JsonPostTask.Audience task\<rparr>)\<rparr>)
                (JsonPostTask.ScheduledTime task) (JsonPostTask.Deadline task) ops)"
  using assms by (simp add: CreateJsonPostTask_def split: prod.splits sum.splits)

lemma CreateJsonPostTask_success:
  assumes "fst (CreateJsonPostTask tsp jm s w q jt ops) = (tn, None)"
  shows "\<exists>req got. fst (CreateTask tsp s w q (JsonPostTask.Name jt) req
                        (JsonPostTask.ScheduledTime jt) (JsonPostTask.Deadline jt) ops) = Inr got \<and>
                   tn = Task.Name got"
proof (cases "jm (JsonPostTask.Body jt)")
  case (Inl e)
  with assms show ?thesis by (simp add: CreateJsonPostTask_def)
next
  case (Inr body)
  let ?c = "CreateTask tsp s w q (JsonPostTask.Name jt)
        (Some \<lparr>Url = JsonPostTask.RelativeURI jt, HttpMethod = POST,
               HttpRequest.Headers = [''Content-Type'' \<mapsto> ''application/json''],
               HttpRequest.Body = body,
               AuthorizationHeader = Some (HttpRequest_OidcToken
                 \<lparr>OidcToken.ServiceAccountEmail = serviceAccountEmail s,
                  OidcToken.Audience = JsonPostTask.Audience jt\<rparr>)\<rparr>)
        (JsonPostTask.ScheduledTime jt) (JsonPostTask.Deadline jt) ops"
  obtain res w' where c: "?c = (res, w')" by (cases ?c)
  show ?thesis
  proof (cases res)
    case (Inl e)
    with assms Inr c show ?thesis by (simp add: CreateJsonPostTask_def)
  next
    case got: (Inr got)
    with assms Inr c have "tn = Task.Name got" by (simp add: CreateJsonPostTask_def)
    moreover from c got have "fst ?c = Inr got" by simp
    ultimately show ?thesis by blast
  qed
qed

lemma CreateGetTask_success:
  assumes "fst (CreateGetTask tsp s w q gt ops) = (tn, None)"
  shows "\<exists>req got. fst (CreateTask tsp s w q (GetTask.Name gt) req
                        (GetTask.ScheduledTime gt) (GetTask.Deadline gt) ops) = Inr got \<and>
                   tn = Task.Name got"
proof -
  let ?c = "CreateTask tsp s w q (GetTask.Name gt)
        (Some \<lparr>Url = GetTask.RelativeURI gt, HttpMethod = GET,
               HttpRequest.Headers = GetTask.Headers gt,
               HttpRequest.Body = [],
               AuthorizationHeader = Some (HttpRequest_OidcToken
                 \<lparr>OidcToken.ServiceAccountEmail = serviceAccountEmail s,
                  OidcToken.Audience = GetTask.Audience gt\<rparr>)\<rparr>)
        (GetTask.ScheduledTime gt) (GetTask.Deadline gt) ops"
  obtain res w' where c: "?c = (res, w')" by (cases ?c)
  show ?thesis
  proof (cases res)
    case (Inl e)
    with assms c show ?thesis by (simp add: CreateGetTask_def)
  next
    case got: (Inr got)
    with assms c have "tn = Task.Name got" by (simp add: CreateGetTask_def)
    moreover from c got have "fst ?c = Inr got" by simp
    ultimately show ?thesis by blast
  qed
qed

lemma CreateJsonPostTask_error_empty:
  "snd (fst (CreateJsonPostTask tsp jm s w q task ops)) \<noteq> None \<Longrightarrow>
   fst (fst (CreateJsonPostTask tsp jm s w q task ops)) = []"
  by (auto simp: CreateJsonPostTask_def split: sum.splits prod.splits)

lemma CreateGetTask_error_empty:
  "snd (fst (CreateGetTask tsp s w q task ops)) \<noteq> None \<Longrightarrow>
   fst (fst (CreateGetTask tsp s w q task ops)) = []"
  by (auto simp: CreateGetTask_def split: sum.splits prod.splits)

subsection \<open>The fan-out\<close>

lemma fan_empty:
  "fold (fan_step create collect) sched (fan_init 0 w) = fan_init 0 w"
  by (induction sched) (simp_all add: fan_step_def fan_init_def)

lemma collect_JsonPostTask_ok: "collect_ok (\<lambda>i. collect_JsonPostTask i (tasks ! i))"
  by (auto simp: collect_ok_def appended_def collect_JsonPostTask_def Append_def split: option.splits)

lemma collect_GetTask_ok: "collect_ok (\<lambda>i. collect_GetTask i (tasks ! i))"
  by (auto simp: collect_ok_def appended_def collect_GetTask_def Append_def split: option.splits)

lemma create_JsonPostTask_ok:
  "create_ok (\<lambda>i w. CreateJsonPostTask tsp jm s w q (tasks ! i) ops)"
  unfolding create_ok_def using CreateJsonPostTask_error_empty by blast

lemma create_GetTask_ok:
  "create_ok (\<lambda>i w. CreateGetTask tsp s w q (tasks ! i) ops)"
  unfolding create_ok_def using CreateGetTask_error_empty by blast

lemma turns_snoc: "turns n (sched @ [i]) = turn_step n i (turns n sched)"
  by (simp add: turns_def)

lemma turns_inv:
  "case turns n sched of (once, twice) \<Rightarrow>
     distinct once \<and> distinct twice \<and> set twice \<subseteq> set once \<and>
     (\<forall>i. (i \<in> set once) = (i < n \<and> 1 \<le> count_list sched i)) \<and>
     (\<forall>i. (i \<in> set twice) = (i < n \<and> 2 \<le> count_list sched i))"
proof (induction sched rule: rev_induct)
  case Nil
  then show ?case by (simp add: turns_def)
next
  case (snoc x xs)
  obtain once twice where t: "turns n xs = (once, twice)" by (cases "turns n xs")
  from snoc t have d: "distinct once" "distinct twice" "set twice \<subseteq> set once"
    and o: "\<And>i. (i \<in> set once) = (i < n \<and> 1 \<le> count_list xs i)"
    and w: "\<And>i. (i \<in> set twice) = (i < n \<and> 2 \<le> count_list xs i)"
    by simp_all
  show ?case
  proof (cases "x < n")
    case False
    then show ?thesis using d o w t by (auto simp: turns_snoc turn_step_def)
  next
    case True
    show ?thesis
    proof (cases "x \<in> set once")
      case False
      then have "x \<notin> set twice" using d by auto
      with False True show ?thesis using d o w t
        by (auto simp: turns_snoc turn_step_def)
    next
      case once: True
      show ?thesis
      proof (cases "x \<in> set twice")
        case False
        with once True show ?thesis using d o w t
          by (auto simp: turns_snoc turn_step_def)
      next
        case twice: True
        with once True show ?thesis using d o w t
          by (auto simp: turns_snoc turn_step_def)
      qed
    qed
  qed
qed

lemma seq_creates_snoc:
  "seq_creates create n (order @ [i]) w = create_step create i (seq_creates create n order w)"
  by (simp add: seq_creates_def)

lemma create_fold_length:
  "length (fst (fold (create_step create) order a)) = length (fst a)"
  by (induction order arbitrary: a) (auto simp: create_step_def split: prod.splits)

lemma seq_creates_length: "length (fst (seq_creates create n order w)) = n"
  by (simp add: seq_creates_def create_fold_length)

lemma create_fold_ok:
  assumes cr: "create_ok create"
    and a: "\<forall>j<length (fst a). snd (fst a ! j) \<noteq> None \<longrightarrow> fst (fst a ! j) = []"
  shows "\<forall>j<length (fst a). snd (fst (fold (create_step create) order a) ! j) \<noteq> None \<longrightarrow>
           fst (fst (fold (create_step create) order a) ! j) = []"
  using a
proof (induction order arbitrary: a)
  case Nil
  then show ?case by simp
next
  case (Cons i order)
  obtain outs w where aw: "a = (outs, w)" by (cases a)
  obtain r w' where c: "create i w = (r, w')" by (cases "create i w")
  from cr c have r: "snd r \<noteq> None \<longrightarrow> fst r = []"
    unfolding create_ok_def by (metis fst_conv)
  have s: "create_step create i a = (outs[i := r], w')"
    using aw c by (simp add: create_step_def)
  have "\<forall>j<length (fst (create_step create i a)).
          snd (fst (create_step create i a) ! j) \<noteq> None \<longrightarrow>
          fst (fst (create_step create i a) ! j) = []"
    unfolding s
  proof (intro allI impI)
    fix j
    assume j: "j < length (fst (outs[i := r], w'))"
      and e: "snd (fst (outs[i := r], w') ! j) \<noteq> None"
    show "fst (fst (outs[i := r], w') ! j) = []"
    proof (cases "j = i")
      case True
      with j e r show ?thesis by simp
    next
      case False
      with j e Cons.prems aw show ?thesis by simp
    qed
  qed
  from Cons.IH[OF this] show ?case using s aw by simp
qed

lemma seq_creates_ok:
  assumes "create_ok create" and "j < n"
    and "snd (fst (seq_creates create n order w) ! j) \<noteq> None"
  shows "fst (fst (seq_creates create n order w) ! j) = []"
  using create_fold_ok[OF assms(1), of "(replicate n ([], None), w)" order] assms(2,3)
  by (simp add: seq_creates_def)

lemma fan_rel_init: "fan_rel create collect n w [] (fan_init n w)"
  by (simp add: fan_rel_def turns_def seq_creates_def fan_init_def)

lemma fan_rel_step:
  assumes rel: "fan_rel create collect n w sched st"
    and co: "collect_ok collect" and cr: "create_ok create"
  shows "fan_rel create collect n w (sched @ [i]) (fan_step create collect i st)"
proof -
  obtain once twice where t: "turns n sched = (once, twice)" by (cases "turns n sched")
  obtain outs w' where sc: "seq_creates create n once w = (outs, w')"
    by (cases "seq_creates create n once w")
  from turns_inv[of n sched] t have sub: "set twice \<subseteq> set once"
    and on: "\<And>k. k \<in> set once \<Longrightarrow> k < n" by auto
  from rel t sc have wst: "world st = w'" and lp: "length (pcs st) = n"
    and lr: "length (results st) = n"
    and pc: "\<And>j. j < n \<Longrightarrow> pcs st ! j =
                 (if j \<in> set twice then Finished (outs ! j)
                  else if j \<in> set once then Called (outs ! j) else NotStarted)"
    and rs: "\<And>j. j < n \<Longrightarrow> results st ! j = (if j \<in> set twice then fst (outs ! j) else [])"
    and me: "merr st = concat (map (\<lambda>i. appended collect i (outs ! i)) twice)"
    by (simp_all add: fan_rel_def)
  have lo: "length outs = n" using seq_creates_length[of create n once w] sc by simp
  show ?thesis
  proof (cases "i < n")
    case False
    then have "fan_step create collect i st = st" using lp by (simp add: fan_step_def)
    moreover have "turns n (sched @ [i]) = (once, twice)"
      using False t by (simp add: turns_snoc turn_step_def)
    ultimately show ?thesis using rel t by (simp add: fan_rel_def)
  next
    case i: True
    show ?thesis
    proof (cases "i \<in> set once")
      case False
      then have nt: "i \<notin> set twice" using sub by auto
      have pci: "pcs st ! i = NotStarted" using pc[OF i] False nt by simp
      obtain r w'' where c: "create i w' = (r, w'')" by (cases "create i w'")
      have st': "fan_step create collect i st = st\<lparr>world := w'', pcs := (pcs st)[i := Called r]\<rparr>"
        using i lp pci c wst by (simp add: fan_step_def)
      have t': "turns n (sched @ [i]) = (once @ [i], twice)"
        using i False t by (simp add: turns_snoc turn_step_def)
      have sc': "seq_creates create n (once @ [i]) w = (outs[i := r], w'')"
        using sc c by (simp add: seq_creates_snoc create_step_def)
      have m: "concat (map (\<lambda>k. appended collect k (outs[i := r] ! k)) twice) =
               concat (map (\<lambda>k. appended collect k (outs ! k)) twice)"
      proof -
        have "map (\<lambda>k. appended collect k (outs[i := r] ! k)) twice =
              map (\<lambda>k. appended collect k (outs ! k)) twice"
        proof (intro map_cong refl)
          fix k assume "k \<in> set twice"
          with nt have "i \<noteq> k" by auto
          then show "appended collect k (outs[i := r] ! k) = appended collect k (outs ! k)"
            by simp
        qed
        then show ?thesis by (rule arg_cong)
      qed
      have P: "\<forall>j<n. (pcs st)[i := Called r] ! j =
                 (if j \<in> set twice then Finished (outs[i := r] ! j)
                  else if j \<in> set (once @ [i]) then Called (outs[i := r] ! j)
                  else NotStarted)"
      proof (intro allI impI)
        fix j assume j: "j < n"
        show "(pcs st)[i := Called r] ! j =
                 (if j \<in> set twice then Finished (outs[i := r] ! j)
                  else if j \<in> set (once @ [i]) then Called (outs[i := r] ! j)
                  else NotStarted)"
        proof (cases "j = i")
          case True
          then show ?thesis using i lp lo nt by simp
        next
          case False
          then show ?thesis using pc[OF j] by simp
        qed
      qed
      have R: "\<forall>j<n. results st ! j = (if j \<in> set twice then fst (outs[i := r] ! j) else [])"
      proof (intro allI impI)
        fix j assume j: "j < n"
        show "results st ! j = (if j \<in> set twice then fst (outs[i := r] ! j) else [])"
        proof (cases "j = i")
          case True
          then show ?thesis using rs[OF j] nt by simp
        next
          case False
          then show ?thesis using rs[OF j] by simp
        qed
      qed
      show ?thesis
        using lp lr P R me m by (simp add: fan_rel_def t' sc' st')
    next
      case once: True
      show ?thesis
      proof (cases "i \<in> set twice")
        case True
        have pci: "pcs st ! i = Finished (outs ! i)" using pc[OF i] True by simp
        have "fan_step create collect i st = st" using i lp pci by (simp add: fan_step_def)
        moreover have "turns n (sched @ [i]) = (once, twice)"
          using i once True t by (simp add: turns_snoc turn_step_def)
        ultimately show ?thesis using rel t by (simp add: fan_rel_def)
      next
        case False
        have pci: "pcs st ! i = Called (outs ! i)" using pc[OF i] once False by simp
        obtain tn err where r: "outs ! i = (tn, err)" by (cases "outs ! i")
        obtain rs' m' where c: "collect i (outs ! i) (results st, merr st) = (rs', m')"
          by (cases "collect i (outs ! i) (results st, merr st)")
        have st': "fan_step create collect i st =
            st\<lparr>pcs := (pcs st)[i := Finished (outs ! i)], results := rs', merr := m'\<rparr>"
          using i lp pci c by (simp add: fan_step_def)
        have t': "turns n (sched @ [i]) = (once, twice @ [i])"
          using i once False t by (simp add: turns_snoc turn_step_def)
        from co have "snd (collect i (tn, err) (results st, merr st)) =
            merr st @ appended collect i (tn, err)"
          unfolding collect_ok_def by blast
        then have m': "m' = merr st @ appended collect i (outs ! i)" using c r by simp
        from co have "fst (collect i (tn, err) (results st, merr st)) = (results st)[i := tn] \<or>
            err \<noteq> None \<and> fst (collect i (tn, err) (results st, merr st)) = results st"
          unfolding collect_ok_def by blast
        then have rs1: "rs' = (results st)[i := tn] \<or> err \<noteq> None \<and> rs' = results st"
          using c r by simp
        have ri: "results st ! i = []" using rs[OF i] False by simp
        have tn: "err \<noteq> None \<Longrightarrow> tn = []"
          using seq_creates_ok[OF cr i, of once w] sc r by simp
        have same: "err \<noteq> None \<Longrightarrow> (results st)[i := tn] = results st"
          using tn ri lr i by (simp add: list_update_same_conv)
        have rs2: "rs' = (results st)[i := tn]" using rs1 same by metis
        have P: "\<forall>j<n. (pcs st)[i := Finished (outs ! i)] ! j =
                 (if j \<in> set (twice @ [i]) then Finished (outs ! j)
                  else if j \<in> set once then Called (outs ! j) else NotStarted)"
        proof (intro allI impI)
          fix j assume j: "j < n"
          show "(pcs st)[i := Finished (outs ! i)] ! j =
                 (if j \<in> set (twice @ [i]) then Finished (outs ! j)
                  else if j \<in> set once then Called (outs ! j) else NotStarted)"
          proof (cases "j = i")
            case True
            then show ?thesis using i lp by simp
          next
            case False
            then show ?thesis using pc[OF j] by simp
          qed
        qed
        have R: "\<forall>j<n. rs' ! j = (if j \<in> set (twice @ [i]) then fst (outs ! j) else [])"
        proof (intro allI impI)
          fix j assume j: "j < n"
          show "rs' ! j = (if j \<in> set (twice @ [i]) then fst (outs ! j) else [])"
          proof (cases "j = i")
            case True
            then show ?thesis using i lr rs2 r by simp
          next
            case False
            then show ?thesis using rs[OF j] rs2 by simp
          qed
        qed
        have L: "length rs' = n" using rs2 lr by simp
        show ?thesis
          using lp L P R me m' wst by (simp add: fan_rel_def t' sc st')
      qed
    qed
  qed
qed

lemma fan_rel_fold:
  assumes co: "collect_ok collect" and cr: "create_ok create"
  shows "fan_rel create collect n w sched (fold (fan_step create collect) sched (fan_init n w))"
proof (induction sched rule: rev_induct)
  case Nil
  then show ?case by (simp add: fan_rel_init)
next
  case (snoc i sched)
  from fan_rel_step[OF snoc co cr, of i] show ?case by simp
qed

lemma complete_iff: "complete n sched = (\<forall>j<n. 2 \<le> count_list sched j)"
  by (auto simp: complete_def list_all_iff)

lemma collect_order_complete:
  "complete n sched = (set (collect_order n sched) = {..<n})"
proof -
  from turns_inv[of n sched]
  have "\<And>i. (i \<in> set (collect_order n sched)) = (i < n \<and> 2 \<le> count_list sched i)"
    by (cases "turns n sched") (simp add: collect_order_def)
  then show ?thesis unfolding complete_iff by auto
qed

lemma orders_complete:
  assumes "complete n sched"
  shows "distinct (call_order n sched)" "set (call_order n sched) = {..<n}"
    "distinct (collect_order n sched)" "set (collect_order n sched) = {..<n}"
proof -
  obtain once twice where t: "turns n sched = (once, twice)" by (cases "turns n sched")
  from turns_inv[of n sched] t have d: "distinct once" "distinct twice"
    and o: "\<And>i. (i \<in> set once) = (i < n \<and> 1 \<le> count_list sched i)"
    and w: "\<And>i. (i \<in> set twice) = (i < n \<and> 2 \<le> count_list sched i)"
    by simp_all
  from assms have c: "\<And>j. j < n \<Longrightarrow> 2 \<le> count_list sched j" by (simp add: complete_iff)
  show "distinct (call_order n sched)" "distinct (collect_order n sched)"
    using d t by (simp_all add: call_order_def collect_order_def)
  show "set (call_order n sched) = {..<n}"
    using o c t by (fastforce simp: call_order_def)
  show "set (collect_order n sched) = {..<n}"
    using w c t by (fastforce simp: collect_order_def)
qed

lemma fan_exact:
  assumes co: "collect_ok collect" and cr: "create_ok create"
  shows "fan_wait (fold (fan_step create collect) sched (fan_init n w)) =
     (if complete n sched
      then (case seq_creates create n (call_order n sched) w of
              (outs, w') \<Rightarrow>
                Some ((map fst outs,
                       ErrorOrNil (concat (map (\<lambda>i. appended collect i (outs ! i))
                                     (collect_order n sched)))), w'))
      else None)"
proof -
  define st where "st = fold (fan_step create collect) sched (fan_init n w)"
  obtain once twice where t: "turns n sched = (once, twice)" by (cases "turns n sched")
  obtain outs w' where sc: "seq_creates create n once w = (outs, w')"
    by (cases "seq_creates create n once w")
  have rel: "fan_rel create collect n w sched st"
    unfolding st_def by (rule fan_rel_fold[OF co cr])
  from rel t sc have wst: "world st = w'" and lp: "length (pcs st) = n"
    and lr: "length (results st) = n"
    and pc: "\<And>j. j < n \<Longrightarrow> pcs st ! j =
                 (if j \<in> set twice then Finished (outs ! j)
                  else if j \<in> set once then Called (outs ! j) else NotStarted)"
    and rs: "\<And>j. j < n \<Longrightarrow> results st ! j = (if j \<in> set twice then fst (outs ! j) else [])"
    and me: "merr st = concat (map (\<lambda>i. appended collect i (outs ! i)) twice)"
    by (simp_all add: fan_rel_def)
  have lo: "length outs = n" using seq_creates_length[of create n once w] sc by simp
  from turns_inv[of n sched] t
  have tw: "\<And>i. (i \<in> set twice) = (i < n \<and> 2 \<le> count_list sched i)" by simp
  have fin: "list_all is_Finished (pcs st) = complete n sched"
  proof
    assume a: "list_all is_Finished (pcs st)"
    show "complete n sched"
      unfolding complete_iff
    proof (intro allI impI)
      fix j assume j: "j < n"
      from a j lp have "is_Finished (pcs st ! j)" by (simp add: list_all_length)
      with pc[OF j] have "j \<in> set twice" by (auto split: if_splits)
      with tw show "2 \<le> count_list sched j" by simp
    qed
  next
    assume c: "complete n sched"
    have "is_Finished (pcs st ! j)" if "j < n" for j
    proof -
      from c that have "j \<in> set twice" using tw by (simp add: complete_iff)
      with pc[OF that] show ?thesis by simp
    qed
    then show "list_all is_Finished (pcs st)" using lp by (simp add: list_all_length)
  qed
  show ?thesis
  proof (cases "complete n sched")
    case False
    then show ?thesis using fin by (simp add: fan_wait_def st_def[symmetric])
  next
    case True
    have "results st ! j = map fst outs ! j" if "j < n" for j
    proof -
      from True that have "j \<in> set twice" using tw by (simp add: complete_iff)
      with rs[OF that] lo that show ?thesis by simp
    qed
    then have res: "results st = map fst outs" using lr lo by (simp add: list_eq_iff_nth_eq)
    show ?thesis
      using True fin res wst me t sc
      by (simp add: fan_wait_def st_def[symmetric] call_order_def collect_order_def)
  qed
qed

lemma aggregate_nil:
  assumes co: "collect_ok collect" and s: "set order = {..<n}"
  shows "(ErrorOrNil (concat (map (\<lambda>i. appended collect i (outs ! i)) order)) = None) =
         (\<forall>i<n. snd (outs ! i) = None)"
proof -
  from co have a: "\<forall>i tn err. (appended collect i (tn, err) = []) = (err = None)"
    unfolding collect_ok_def by blast
  have e: "(appended collect i (outs ! i) = []) = (snd (outs ! i) = None)" for i
    using a[rule_format, of i "fst (outs ! i)" "snd (outs ! i)"] by simp
  have "(concat (map (\<lambda>i. appended collect i (outs ! i)) order) = []) =
        (\<forall>i\<in>set order. appended collect i (outs ! i) = [])"
    by (induction order) auto
  then have "(concat (map (\<lambda>i. appended collect i (outs ! i)) order) = []) =
        (\<forall>i<n. snd (outs ! i) = None)"
    unfolding s e by auto
  then show ?thesis by (simp add: ErrorOrNil_def)
qed

lemma appended_JsonPostTask_cases:
  "appended (\<lambda>i. collect_JsonPostTask i (tasks ! i)) i r =
     (case snd r of
        None \<Rightarrow> []
      | Some e \<Rightarrow>
          [case xerrors_As e of
             Some a \<Rightarrow>
               if Code a = AlreadyExists
               then AppError (Error AlreadyExists (Message a)
                      ((KV a)(''index'' \<mapsto> KInt (int i))) (cause a))
               else AppError (Error CreateMultiTaskFailure ''failed CreateJsonPostTask''
                      [''index'' \<mapsto> KInt (int i),
                       ''taskName'' \<mapsto> KString (JsonPostTask.Name (tasks ! i)),
                       ''URI'' \<mapsto> KString (JsonPostTask.RelativeURI (tasks ! i))] (Some e))
           | None \<Rightarrow>
               AppError (Error CreateMultiTaskFailure ''failed CreateJsonPostTask''
                 [''index'' \<mapsto> KInt (int i),
                  ''taskName'' \<mapsto> KString (JsonPostTask.Name (tasks ! i)),
                  ''URI'' \<mapsto> KString (JsonPostTask.RelativeURI (tasks ! i))] (Some e))])"
  by (cases r)
     (simp add: appended_def collect_JsonPostTask_def Append_def ErrAlreadyExists_def
        NewErrCreateMultiTask_def split: option.splits)

lemma appended_GetTask_cases:
  "appended (\<lambda>i. collect_GetTask i (tasks ! i)) i r =
     (case snd r of
        None \<Rightarrow> []
      | Some e \<Rightarrow>
          [case xerrors_As e of
             Some a \<Rightarrow>
               if Code a = AlreadyExists
               then AppError (Error AlreadyExists (Message a)
                      ((KV a)(''index'' \<mapsto> KInt (int i))) (cause a))
               else AppError (Error CreateMultiTaskFailure ''failed CreateGetTask''
                      [''index'' \<mapsto> KInt (int i),
                       ''taskName'' \<mapsto> KString (GetTask.Name (tasks ! i)),
                       ''URI'' \<mapsto> KString (GetTask.RelativeURI (tasks ! i))] (Some e))
           | None \<Rightarrow>
               AppError (Error CreateMultiTaskFailure ''failed CreateGetTask''
                 [''index'' \<mapsto> KInt (int i),
                  ''taskName'' \<mapsto> KString (GetTask.Name (tasks ! i)),
                  ''URI'' \<mapsto> KString (GetTask.RelativeURI (tasks ! i))] (Some e))])"
  by (cases r)
     (simp add: appended_def collect_GetTask_def Append_def ErrAlreadyExists_def
        NewErrCreateMultiTask_def split: option.splits)

lemma JsonPostTaskMulti_exact:
  "CreateJsonPostTaskMulti tsp jm s w q tasks ops sched =
     (if complete (length tasks) sched
      then (case seq_creates (\<lambda>i w. CreateJsonPostTask tsp jm s w q (tasks ! i) ops)
                   (length tasks) (call_order (length tasks) sched) w of
              (outs, w') \<Rightarrow>
                Some ((map fst outs,
                       ErrorOrNil (concat (map
                         (\<lambda>i. appended (\<lambda>i. collect_JsonPostTask i (tasks ! i)) i (outs ! i))
                         (collect_order (length tasks) sched)))), w'))
      else None)"
  unfolding CreateJsonPostTaskMulti_def run_JsonPostTaskMulti_def
  by (rule fan_exact[OF collect_JsonPostTask_ok create_JsonPostTask_ok])

lemma GetTaskMulti_exact:
  "CreateGetTaskMulti tsp s w q tasks ops sched =
     (if complete (length tasks) sched
      then (case seq_creates (\<lambda>i w. CreateGetTask tsp s w q (tasks ! i) ops)
                   (length tasks) (call_order (length tasks) sched) w of
              (outs, w') \<Rightarrow>
                Some ((map fst outs,
                       ErrorOrNil (concat (map
                         (\<lambda>i. appended (\<lambda>i. collect_GetTask i (tasks ! i)) i (outs ! i))
                         (collect_order (length tasks) sched)))), w'))
      else None)"
  unfolding CreateGetTaskMulti_def run_GetTaskMulti_def
  by (rule fan_exact[OF collect_GetTask_ok create_GetTask_ok])

subsection \<open>The test double\<close>

lemma fake_names:
  "\<forall>p r t p'. taskClient fake_Service p r = (Inr t, p') \<longrightarrow> Task.Name t \<noteq> []"
  by (auto simp: fake_Service_def fake_taskClient_def Let_def split: if_splits)

lemma fake_dups:
  "\<forall>p r e p'. taskClient fake_Service p r = (Inl e, p') \<longrightarrow>
      status_FromError e = Some codes_AlreadyExists \<longrightarrow> Task.Name (Task r) \<noteq> []"
  by (auto simp: fake_Service_def fake_taskClient_def Let_def split: if_splits)

text \<open>The definitions a run on the test double unfolds.\<close>

lemmas model_defs =
  CreateGetTask_def CreateJsonPostTask_def CreateTask_def buildTaskReq_def
  taskClient_CreateTask_def fake_Service_def fake_taskClient_def fake_Marshal_def
  get_task_def post_task_def fake_TimestampProto_def NewErrInvalidArgument_def
  ci_queue_def fresh_World_def Parent_def IsZero_def Let_def ErrorOrNil_def
  NewErrAlreadyExists_def

lemmas sched_defs =
  seq_creates_def create_step_def call_order_def collect_order_def turns_def turn_step_def
  complete_def

text \<open>
  A run of three GET tasks, two of one name and one scheduled before year 1, on the
  schedule that starts the last goroutine first: the names returned, the code and the
  context of each error in the aggregate, and the number of requests sent.
\<close>

lemma fake_GetTaskMulti_run:
  "map_option
     (\<lambda>r. (fst (fst r),
           map_option (map (\<lambda>e. map_option (\<lambda>a. (Code a, KV a ''index'', KV a ''taskName'',
                                                   KV a ''URI'')) (xerrors_As e)))
             (snd (fst r)),
           length (sent (snd r))))
     (CreateGetTaskMulti fake_TimestampProto fake_Service fresh_World ci_queue
        [get_task ''dup'', get_task ''dup'', (get_task ''late'')\<lparr>GetTask.ScheduledTime := - 5\<rparr>]
        [] [2, 0, 1, 0, 1, 2]) =
   Some ([''projects/ci/locations/asia/queues/box/tasks/dup'', [], []],
         Some [Some (AlreadyExists, Some (KInt 1),
                     Some (KString ''projects/ci/locations/asia/queues/box/tasks/dup''), None),
               Some (CreateMultiTaskFailure, Some (KInt 2), Some (KString ''late''),
                     Some (KString ''/run''))],
         2)"
  by (simp add: CreateGetTaskMulti_def run_GetTaskMulti_def fan_wait_def fan_init_def
        fan_step_def collect_GetTask_def CreateGetTask_def CreateTask_def buildTaskReq_def
        taskClient_CreateTask_def fake_Service_def fake_taskClient_def get_task_def
        fake_TimestampProto_def NewErrInvalidArgument_def NewErrCreateMultiTask_def
        ci_queue_def fresh_World_def Parent_def IsZero_def Let_def Append_def
        ErrorOrNil_def NewErrAlreadyExists_def ErrAlreadyExists_def)

section \<open>Properties\<close>

subsection \<open>Queue\<close>

text \<open>
  C9. For every queue with project P, region R and name N, \<open>Parent\<close> is exactly
  \<open>projects/P/locations/R/queues/N\<close>. It is a total function of the queue alone: it has
  no failure value and touches no state.
\<close>

theorem Parent_format:
  "Parent \<lparr>ProjectID = P, Region = R, Queue.Name = N\<rparr> =
     ''projects/'' @ P @ ''/locations/'' @ R @ ''/queues/'' @ N"
  by (simp add: Parent_def)

subsection \<open>CreateTask\<close>

text \<open>
  C6. The request \<open>CreateTask\<close> hands to the client names the task
  \<open>projects/P/locations/R/queues/Q/tasks/T\<close> when a task name \<open>T\<close> is given, and leaves the
  name empty when none is.
\<close>

theorem CreateTask_task_name:
  assumes "IsZero t \<or> tsp t = Inr ts"
  shows "\<exists>r. sent (snd (CreateTask tsp s w q taskName req t d ops)) = sent w @ [r] \<and>
     Task.Name (Task r) =
       (if taskName = [] then []
        else ''projects/'' @ ProjectID q @ ''/locations/'' @ Region q @
             ''/queues/'' @ Queue.Name q @ ''/tasks/'' @ taskName)"
  proof -
  note b = buildTaskReq_ok[where tsp=tsp and t=t and ts=ts, OF assms]
  show ?thesis
    by (rule exI, rule conjI, rule CreateTask_sent[OF b]) simp
qed

text \<open>On the test double:\<close>

theorem CreateTask_task_name_witness:
  "(IsZero 1000000000 \<or>
    fake_TimestampProto 1000000000 = Inr \<lparr>Seconds = - 62135596799, Nanos = 0\<rparr>) \<and>
   (\<exists>r. sent (snd (CreateTask fake_TimestampProto fake_Service fresh_World ci_queue ''t1'' None
                      1000000000 5 [])) = sent fresh_World @ [r] \<and>
        Task.Name (Task r) = ''projects/ci/locations/asia/queues/box/tasks/t1'')"
  using CreateTask_task_name[of 1000000000 fake_TimestampProto "\<lparr>Seconds = - 62135596799, Nanos = 0\<rparr>"
             fake_Service fresh_World ci_queue "''t1''" None 5 "[]"]
  by (simp add: IsZero_def fake_TimestampProto_def ci_queue_def)

text \<open>
  C8. The request \<open>CreateTask\<close> hands to the client has a schedule time exactly when the
  scheduled time is not zero, and a dispatch deadline exactly when the deadline is not
  zero.
\<close>

theorem CreateTask_schedule_and_deadline:
  assumes "IsZero t \<or> tsp t = Inr ts"
  shows "\<exists>r. sent (snd (CreateTask tsp s w q taskName req t d ops)) = sent w @ [r] \<and>
     ScheduleTime (Task r) = (if IsZero t then None else Some ts) \<and>
     DispatchDeadline (Task r) = (if d = 0 then None else Some d)"
  proof -
  note b = buildTaskReq_ok[where tsp=tsp and t=t and ts=ts, OF assms]
  show ?thesis
    by (rule exI, rule conjI, rule CreateTask_sent[OF b]) simp
qed

text \<open>On the test double:\<close>

theorem CreateTask_schedule_and_deadline_witness:
  "(IsZero 0 \<or> fake_TimestampProto 0 = Inr \<lparr>Seconds = - 62135596800, Nanos = 0\<rparr>) \<and>
   (\<exists>r. sent (snd (CreateTask fake_TimestampProto fake_Service fresh_World ci_queue ''t1'' None
                      0 0 [])) = sent fresh_World @ [r] \<and>
        ScheduleTime (Task r) = None \<and> DispatchDeadline (Task r) = None) \<and>
   (IsZero 1000000000 \<or>
    fake_TimestampProto 1000000000 = Inr \<lparr>Seconds = - 62135596799, Nanos = 0\<rparr>) \<and>
   (\<exists>r. sent (snd (CreateTask fake_TimestampProto fake_Service fresh_World ci_queue ''t1'' None
                      1000000000 5 [])) = sent fresh_World @ [r] \<and>
        ScheduleTime (Task r) = Some \<lparr>Seconds = - 62135596799, Nanos = 0\<rparr> \<and>
        DispatchDeadline (Task r) = Some 5)"
  using CreateTask_schedule_and_deadline[of 0 fake_TimestampProto "\<lparr>Seconds = - 62135596800, Nanos = 0\<rparr>"
             fake_Service fresh_World ci_queue "''t1''" None 0 "[]"]
        CreateTask_schedule_and_deadline[of 1000000000 fake_TimestampProto "\<lparr>Seconds = - 62135596799, Nanos = 0\<rparr>"
             fake_Service fresh_World ci_queue "''t1''" None 5 "[]"]
  by (simp add: IsZero_def fake_TimestampProto_def)

text \<open>
  C5. When the scheduled time is not zero and its conversion fails, \<open>CreateTask\<close> returns
  an InvalidArgument error with the scheduled time in its context, and the world is
  unchanged: no request reached the client.
\<close>

theorem CreateTask_invalid_schedule_time:
  assumes "\<not> IsZero t" "tsp t = Inl e"
  shows "CreateTask tsp s w q taskName req t d ops =
    (Inl (AppError (Error InvalidArgument ''invalid ScheduleTime'' [''ScheduledTime'' \<mapsto> KTime t] (Some e))), w)"
  using assms CreateTask_unsent[OF buildTaskReq_fail[where tsp=tsp and t=t and e=e]]
  by (simp add: NewErrInvalidArgument_def)

text \<open>On the test double:\<close>

theorem CreateTask_invalid_schedule_time_witness:
  "\<not> IsZero (- 1) \<and>
   fake_TimestampProto (- 1) = Inl (Opaque ''timestamp: before 0001-01-01'') \<and>
   CreateTask fake_TimestampProto fake_Service fresh_World ci_queue ''t1'' None (- 1) 0 [] =
     (Inl (AppError (Error InvalidArgument ''invalid ScheduleTime''
             [''ScheduledTime'' \<mapsto> KTime (- 1)] (Some (Opaque ''timestamp: before 0001-01-01'')))),
      fresh_World)"
  using CreateTask_invalid_schedule_time[of "- 1" fake_TimestampProto "Opaque ''timestamp: before 0001-01-01''"
             fake_Service fresh_World ci_queue "''t1''" None 0 "[]"]
  by (simp add: IsZero_def fake_TimestampProto_def)

text \<open>
  C2. When the provider rejects the create call with status AlreadyExists,
  \<open>CreateTask\<close> returns the task it built itself and no error if an ignore option was
  passed, and otherwise an AlreadyExists error whose context maps \<open>taskName\<close> to the
  name in the request: the full resource name of the task (empty when no task name
  was given).
\<close>

theorem CreateTask_already_exists:
  assumes "buildTaskReq tsp q taskName req t d = Inr taskReq"
    and "taskClient s (provider w) taskReq = (Inl err, p')"
    and "status_FromError err = Some codes_AlreadyExists"
    and "set ops \<subseteq> {WithIgnoreAlreadyExists}"
  shows "fst (CreateTask tsp s w q taskName req t d ops) =
    (if ops \<noteq> [] then Inr (Task taskReq)
     else Inl (AppError (Error AlreadyExists (Task.Name (Task taskReq) @ '' is already exists.'')
                 [''taskName'' \<mapsto> KString (Task.Name (Task taskReq))] (Some err)))) \<and>
    Task.Name (Task taskReq) =
      (if taskName = [] then []
       else ''projects/'' @ ProjectID q @ ''/locations/'' @ Region q @
            ''/queues/'' @ Queue.Name q @ ''/tasks/'' @ taskName)"
proof
  show "fst (CreateTask tsp s w q taskName req t d ops) =
    (if ops \<noteq> [] then Inr (Task taskReq)
     else Inl (AppError (Error AlreadyExists (Task.Name (Task taskReq) @ '' is already exists.'')
                 [''taskName'' \<mapsto> KString (Task.Name (Task taskReq))] (Some err))))"
    using assms fold_options[OF assms(4), of "\<lparr>ignoreAlreadyExists = False\<rparr>"]
    by (auto simp: CreateTask_def taskClient_CreateTask_def Let_def NewErrAlreadyExists_def)
  show "Task.Name (Task taskReq) =
      (if taskName = [] then []
       else ''projects/'' @ ProjectID q @ ''/locations/'' @ Region q @
            ''/queues/'' @ Queue.Name q @ ''/tasks/'' @ taskName)"
    using assms(1) by (auto simp: buildTaskReq_def Let_def split: sum.splits if_splits)
qed

text \<open>On the test double:\<close>

theorem CreateTask_already_exists_witness:
  "buildTaskReq fake_TimestampProto ci_queue ''dup'' None 0 0 =
     Inr \<lparr>CreateTaskRequest.Parent = ''projects/ci/locations/asia/queues/box'',
          Task = \<lparr>Task.Name = ''projects/ci/locations/asia/queues/box/tasks/dup'',
                  MessageType = None, ScheduleTime = None, DispatchDeadline = None\<rparr>\<rparr> \<and>
   taskClient fake_Service [''projects/ci/locations/asia/queues/box/tasks/dup'']
     \<lparr>CreateTaskRequest.Parent = ''projects/ci/locations/asia/queues/box'',
      Task = \<lparr>Task.Name = ''projects/ci/locations/asia/queues/box/tasks/dup'',
              MessageType = None, ScheduleTime = None, DispatchDeadline = None\<rparr>\<rparr> =
     (Inl (GrpcStatus codes_AlreadyExists ''task already exists''),
      [''projects/ci/locations/asia/queues/box/tasks/dup'']) \<and>
   fst (CreateTask fake_TimestampProto fake_Service
          \<lparr>provider = [''projects/ci/locations/asia/queues/box/tasks/dup''], sent = []\<rparr>
          ci_queue ''dup'' None 0 0 [WithIgnoreAlreadyExists]) =
     Inr \<lparr>Task.Name = ''projects/ci/locations/asia/queues/box/tasks/dup'',
          MessageType = None, ScheduleTime = None, DispatchDeadline = None\<rparr> \<and>
   fst (CreateTask fake_TimestampProto fake_Service
          \<lparr>provider = [''projects/ci/locations/asia/queues/box/tasks/dup''], sent = []\<rparr>
          ci_queue ''dup'' None 0 0 []) =
     Inl (AppError (Error AlreadyExists
            ''projects/ci/locations/asia/queues/box/tasks/dup is already exists.''
            [''taskName'' \<mapsto> KString ''projects/ci/locations/asia/queues/box/tasks/dup'']
            (Some (GrpcStatus codes_AlreadyExists ''task already exists''))))"
proof -
  let ?n = "''projects/ci/locations/asia/queues/box/tasks/dup''"
  let ?r = "\<lparr>CreateTaskRequest.Parent = ''projects/ci/locations/asia/queues/box'',
          Task = \<lparr>Task.Name = ?n,
                  MessageType = None, ScheduleTime = None, DispatchDeadline = None\<rparr>\<rparr>"
  let ?w = "\<lparr>provider = [?n], sent = []\<rparr>"
  have b: "buildTaskReq fake_TimestampProto ci_queue ''dup'' None 0 0 = Inr ?r"
    by (simp add: buildTaskReq_def IsZero_def Parent_def ci_queue_def Let_def)
  have c: "taskClient fake_Service (provider ?w) ?r =
             (Inl (GrpcStatus codes_AlreadyExists ''task already exists''), [?n])"
    by (simp add: fake_Service_def fake_taskClient_def)
  have s: "status_FromError (GrpcStatus codes_AlreadyExists ''task already exists'') =
             Some codes_AlreadyExists" by simp
  have o1: "set [WithIgnoreAlreadyExists] \<subseteq> {WithIgnoreAlreadyExists}" by simp
  have o0: "set ([] :: CreateTaskOptions list) \<subseteq> {WithIgnoreAlreadyExists}" by simp
  from CreateTask_already_exists[OF b c s o1] CreateTask_already_exists[OF b c s o0] b c show ?thesis by simp
qed

subsection \<open>Single creates\<close>

text \<open>
  C7. When the body serialises, the request \<open>CreateJsonPostTask\<close> hands to the client is
  an HTTP request with method POST, the one header \<open>Content-Type: application/json\<close>, the
  serialised body, and an OIDC token of the service's account and the task's audience.
\<close>

theorem CreateJsonPostTask_request:
  assumes m: "jm (JsonPostTask.Body task) = Inr body"
    and t: "IsZero (JsonPostTask.ScheduledTime task) \<or> tsp (JsonPostTask.ScheduledTime task) = Inr ts"
  shows "\<exists>r. sent (snd (CreateJsonPostTask tsp jm s w q task ops)) = sent w @ [r] \<and>
     MessageType (Task r) =
       Some \<lparr>Url = JsonPostTask.RelativeURI task,
             HttpMethod = POST,
             HttpRequest.Headers = [''Content-Type'' \<mapsto> ''application/json''],
             HttpRequest.Body = body,
             AuthorizationHeader = Some (HttpRequest_OidcToken
               \<lparr>OidcToken.ServiceAccountEmail = serviceAccountEmail s,
                OidcToken.Audience = JsonPostTask.Audience task\<rparr>)\<rparr>"
proof -
  note b = buildTaskReq_ok[where tsp=tsp and t="JsonPostTask.ScheduledTime task" and ts=ts, OF t]
  show ?thesis
    unfolding CreateJsonPostTask_world[where jm=jm and task=task and body=body, OF m]
    by (rule exI, rule conjI, rule CreateTask_sent[OF b]) simp
qed

text \<open>On the test double:\<close>

theorem CreateJsonPostTask_request_witness:
  "fake_Marshal (JsonPostTask.Body (post_task ''t1'')) = Inr ''true'' \<and>
   (IsZero (JsonPostTask.ScheduledTime (post_task ''t1'')) \<or>
    fake_TimestampProto (JsonPostTask.ScheduledTime (post_task ''t1'')) =
      Inr \<lparr>Seconds = - 62135596800, Nanos = 0\<rparr>) \<and>
   (\<exists>r. sent (snd (CreateJsonPostTask fake_TimestampProto fake_Marshal fake_Service fresh_World
                      ci_queue (post_task ''t1'') [])) = sent fresh_World @ [r] \<and>
        MessageType (Task r) =
          Some \<lparr>Url = ''/run'', HttpMethod = POST,
                HttpRequest.Headers = [''Content-Type'' \<mapsto> ''application/json''],
                HttpRequest.Body = ''true'',
                AuthorizationHeader = Some (HttpRequest_OidcToken
                  \<lparr>OidcToken.ServiceAccountEmail = ''ci@appspot.gserviceaccount.com'',
                   OidcToken.Audience = []\<rparr>)\<rparr>)"
  using CreateJsonPostTask_request[of fake_Marshal "post_task ''t1''" "''true''" fake_TimestampProto
             "\<lparr>Seconds = - 62135596800, Nanos = 0\<rparr>" fake_Service fresh_World ci_queue "[]"]
  by (simp add: fake_Marshal_def post_task_def IsZero_def fake_Service_def)

text \<open>
  C3, as the code has it. Let the provider name every task it accepts, and reject as
  already existing only a request that carries a task name. Then every successful
  create returns a non-empty name: the name in the provider's reply or, where an
  already-exists rejection is taken for success, the name built locally, which is
  \<open>projects/P/locations/R/queues/Q/tasks/T\<close> for the task name \<open>T\<close> given. Stated for
  \<open>CreateTask\<close>, \<open>CreateJsonPostTask\<close> and \<open>CreateGetTask\<close>.
\<close>

theorem created_name_nonempty:
  assumes names: "\<forall>p r t p'. taskClient s p r = (Inr t, p') \<longrightarrow> Task.Name t \<noteq> []"
    and dups: "\<forall>p r e p'. taskClient s p r = (Inl e, p') \<longrightarrow>
                 status_FromError e = Some codes_AlreadyExists \<longrightarrow> Task.Name (Task r) \<noteq> []"
  shows
    "(\<forall>task. fst (CreateTask tsp s w q taskName req t d ops) = Inr task \<longrightarrow>
        Task.Name task \<noteq> [] \<and>
        (\<exists>taskReq. buildTaskReq tsp q taskName req t d = Inr taskReq \<and>
           ((\<exists>p'. taskClient s (provider w) taskReq = (Inr task, p')) \<or>
            (\<exists>err p'. taskClient s (provider w) taskReq = (Inl err, p') \<and>
                      status_FromError err = Some codes_AlreadyExists) \<and>
            task = Task taskReq \<and> taskName \<noteq> [] \<and>
            Task.Name task =
              ''projects/'' @ ProjectID q @ ''/locations/'' @ Region q @
              ''/queues/'' @ Queue.Name q @ ''/tasks/'' @ taskName))) \<and>
     (\<forall>tn. fst (CreateJsonPostTask tsp jm s w q jt ops) = (tn, None) \<longrightarrow>
        tn \<noteq> [] \<and>
        ((\<exists>r task p'. taskClient s (provider w) r = (Inr task, p') \<and> tn = Task.Name task) \<or>
         JsonPostTask.Name jt \<noteq> [] \<and>
         tn = ''projects/'' @ ProjectID q @ ''/locations/'' @ Region q @
              ''/queues/'' @ Queue.Name q @ ''/tasks/'' @ JsonPostTask.Name jt)) \<and>
     (\<forall>tn. fst (CreateGetTask tsp s w q gt ops) = (tn, None) \<longrightarrow>
        tn \<noteq> [] \<and>
        ((\<exists>r task p'. taskClient s (provider w) r = (Inr task, p') \<and> tn = Task.Name task) \<or>
         GetTask.Name gt \<noteq> [] \<and>
         tn = ''projects/'' @ ProjectID q @ ''/locations/'' @ Region q @
              ''/queues/'' @ Queue.Name q @ ''/tasks/'' @ GetTask.Name gt))"
proof (intro conjI allI impI)
  fix task
  assume ok: "fst (CreateTask tsp s w q taskName req t d ops) = Inr task"
  from CreateTask_created_name[OF names dups ok]
  show "Task.Name task \<noteq> []" by blast
  from CreateTask_created_name[OF names dups ok]
  show "\<exists>taskReq. buildTaskReq tsp q taskName req t d = Inr taskReq \<and>
           ((\<exists>p'. taskClient s (provider w) taskReq = (Inr task, p')) \<or>
            (\<exists>err p'. taskClient s (provider w) taskReq = (Inl err, p') \<and>
                      status_FromError err = Some codes_AlreadyExists) \<and>
            task = Task taskReq \<and> taskName \<noteq> [] \<and>
            Task.Name task =
              ''projects/'' @ ProjectID q @ ''/locations/'' @ Region q @
              ''/queues/'' @ Queue.Name q @ ''/tasks/'' @ taskName)" by blast
next
  fix tn
  assume ok: "fst (CreateJsonPostTask tsp jm s w q jt ops) = (tn, None)"
  from CreateJsonPostTask_success[OF ok] obtain req' got where
    g: "fst (CreateTask tsp s w q (JsonPostTask.Name jt) req'
              (JsonPostTask.ScheduledTime jt) (JsonPostTask.Deadline jt) ops) = Inr got"
    and tn: "tn = Task.Name got" by blast
  note c = CreateTask_created_name[OF names dups g]
  from c show "tn \<noteq> []" unfolding tn by blast
  from c show "(\<exists>r task p'. taskClient s (provider w) r = (Inr task, p') \<and> tn = Task.Name task) \<or>
         JsonPostTask.Name jt \<noteq> [] \<and>
         tn = ''projects/'' @ ProjectID q @ ''/locations/'' @ Region q @
              ''/queues/'' @ Queue.Name q @ ''/tasks/'' @ JsonPostTask.Name jt"
    unfolding tn by blast
next
  fix tn
  assume ok: "fst (CreateGetTask tsp s w q gt ops) = (tn, None)"
  from CreateGetTask_success[OF ok] obtain req' got where
    g: "fst (CreateTask tsp s w q (GetTask.Name gt) req'
              (GetTask.ScheduledTime gt) (GetTask.Deadline gt) ops) = Inr got"
    and tn: "tn = Task.Name got" by blast
  note c = CreateTask_created_name[OF names dups g]
  from c show "tn \<noteq> []" unfolding tn by blast
  from c show "(\<exists>r task p'. taskClient s (provider w) r = (Inr task, p') \<and> tn = Task.Name task) \<or>
         GetTask.Name gt \<noteq> [] \<and>
         tn = ''projects/'' @ ProjectID q @ ''/locations/'' @ Region q @
              ''/queues/'' @ Queue.Name q @ ''/tasks/'' @ GetTask.Name gt"
    unfolding tn by blast
qed

text \<open>
  On the test double, with duplicates ignored: a named task that the queue holds, and
  an unnamed task that the provider names.
\<close>

theorem created_name_nonempty_witness:
  "fst (CreateGetTask fake_TimestampProto fake_Service
          \<lparr>provider = [''projects/ci/locations/asia/queues/box/tasks/dup''], sent = []\<rparr>
          ci_queue (get_task ''dup'') [WithIgnoreAlreadyExists]) =
     (''projects/ci/locations/asia/queues/box/tasks/dup'', None) \<and>
   fst (fst (CreateGetTask fake_TimestampProto fake_Service
          \<lparr>provider = [''projects/ci/locations/asia/queues/box/tasks/dup''], sent = []\<rparr>
          ci_queue (get_task ''dup'') [WithIgnoreAlreadyExists])) \<noteq> [] \<and>
   fst (CreateGetTask fake_TimestampProto fake_Service fresh_World ci_queue (get_task [])
          [WithIgnoreAlreadyExists]) =
     (''projects/ci/locations/asia/queues/box/tasks/7'', None) \<and>
   fst (fst (CreateGetTask fake_TimestampProto fake_Service fresh_World ci_queue (get_task [])
          [WithIgnoreAlreadyExists])) \<noteq> []"
proof -
  let ?w = "\<lparr>provider = [''projects/ci/locations/asia/queues/box/tasks/dup''], sent = []\<rparr>"
  have v: "fst (CreateGetTask fake_TimestampProto fake_Service ?w ci_queue (get_task ''dup'')
                  [WithIgnoreAlreadyExists]) =
             (''projects/ci/locations/asia/queues/box/tasks/dup'', None)"
    by (simp add: model_defs WithIgnoreAlreadyExists_def)
  have u: "fst (CreateGetTask fake_TimestampProto fake_Service fresh_World ci_queue (get_task [])
                  [WithIgnoreAlreadyExists]) =
             (''projects/ci/locations/asia/queues/box/tasks/7'', None)"
    by (simp add: model_defs WithIgnoreAlreadyExists_def)
  note t1 = created_name_nonempty[OF fake_names fake_dups, where tsp=fake_TimestampProto and w="?w"
                 and q=ci_queue and gt="get_task ''dup''" and ops="[WithIgnoreAlreadyExists]",
                 THEN conjunct2, THEN conjunct2, rule_format, OF v, THEN conjunct1]
  note t2 = created_name_nonempty[OF fake_names fake_dups, where tsp=fake_TimestampProto and w=fresh_World
                 and q=ci_queue and gt="get_task []" and ops="[WithIgnoreAlreadyExists]",
                 THEN conjunct2, THEN conjunct2, rule_format, OF u, THEN conjunct1]
  from v u t1 t2 show ?thesis by simp
qed

text \<open>
  C3 as it is written, of every provider, fails: the code passes on whatever name it is
  given. With duplicates ignored and no task name, a provider that rejects the request
  as a duplicate makes the create succeed with the empty name; and a provider that
  answers with the task as submitted gives a success with the empty name as well.
\<close>

theorem created_name_empty_counterexample:
  "fst (CreateGetTask fake_TimestampProto dup_Service unit_World ci_queue (get_task [])
         [WithIgnoreAlreadyExists]) = ([], None) \<and>
   fst (CreateGetTask fake_TimestampProto echo_Service unit_World ci_queue (get_task []) [])
     = ([], None)"
  by (simp add: CreateGetTask_def CreateTask_def buildTaskReq_def taskClient_CreateTask_def
        dup_Service_def echo_Service_def unit_World_def get_task_def IsZero_def
        WithIgnoreAlreadyExists_def Let_def)

subsection \<open>Multi creates\<close>

text \<open>
  C1. Let \<open>outs\<close> be what the single-creates return, run one after another in the order
  in which the goroutines take their first turn, slot \<open>i\<close> holding what the single-create
  of task \<open>i\<close> returned. A multi-create over N tasks returns exactly on the schedules that
  let every goroutine finish; it then returns N result slots, slot \<open>i\<close> the name in
  \<open>outs\<close> at \<open>i\<close> whatever the order of completion, in the world the single-creates left;
  the aggregate error is nil exactly when no single-create failed, and the name of a
  failed single-create is the empty string. On a complete schedule every task is
  created exactly once. Stated for \<open>CreateJsonPostTaskMulti\<close> and for
  \<open>CreateGetTaskMulti\<close>.
\<close>

theorem CreateMulti_results_and_aggregate:
  "(case seq_creates (\<lambda>i w. CreateJsonPostTask tsp jm s w q (tasks ! i) ops)
           (length tasks) (call_order (length tasks) sched) w of
      (outs, w') \<Rightarrow>
        length outs = length tasks \<and>
        (\<forall>i<length tasks. snd (outs ! i) \<noteq> None \<longrightarrow> fst (outs ! i) = []) \<and>
        (if complete (length tasks) sched
         then \<exists>agg. CreateJsonPostTaskMulti tsp jm s w q tasks ops sched =
                      Some ((map fst outs, agg), w') \<and>
                    (agg = None) = (\<forall>i<length tasks. snd (outs ! i) = None)
         else CreateJsonPostTaskMulti tsp jm s w q tasks ops sched = None)) \<and>
   (case seq_creates (\<lambda>i w. CreateGetTask tsp s w q (gtasks ! i) ops)
           (length gtasks) (call_order (length gtasks) sched) w of
      (outs, w') \<Rightarrow>
        length outs = length gtasks \<and>
        (\<forall>i<length gtasks. snd (outs ! i) \<noteq> None \<longrightarrow> fst (outs ! i) = []) \<and>
        (if complete (length gtasks) sched
         then \<exists>agg. CreateGetTaskMulti tsp s w q gtasks ops sched =
                      Some ((map fst outs, agg), w') \<and>
                    (agg = None) = (\<forall>i<length gtasks. snd (outs ! i) = None)
         else CreateGetTaskMulti tsp s w q gtasks ops sched = None)) \<and>
   (complete n sched \<longrightarrow>
      distinct (call_order n sched) \<and> set (call_order n sched) = {..<n})"
proof (intro conjI)
  let ?c = "\<lambda>i w. CreateJsonPostTask tsp jm s w q (tasks ! i) ops"
  let ?n = "length tasks"
  obtain outs w' where sc: "seq_creates ?c ?n (call_order ?n sched) w = (outs, w')"
    by (cases "seq_creates ?c ?n (call_order ?n sched) w")
  have l: "length outs = ?n" using seq_creates_length[of ?c ?n "call_order ?n sched" w] sc by simp
  have ok: "\<forall>i<?n. snd (outs ! i) \<noteq> None \<longrightarrow> fst (outs ! i) = []"
    using seq_creates_ok[OF create_JsonPostTask_ok, of _ ?n tsp jm s q tasks ops "call_order ?n sched" w] sc
    by simp
  have nil: "complete ?n sched \<Longrightarrow>
      (ErrorOrNil (concat (map (\<lambda>i. appended (\<lambda>i. collect_JsonPostTask i (tasks ! i)) i (outs ! i))
          (collect_order ?n sched))) = None) = (\<forall>i<?n. snd (outs ! i) = None)"
    by (rule aggregate_nil[OF collect_JsonPostTask_ok orders_complete(4)])
  show "case seq_creates ?c ?n (call_order ?n sched) w of
      (outs, w') \<Rightarrow>
        length outs = ?n \<and>
        (\<forall>i<?n. snd (outs ! i) \<noteq> None \<longrightarrow> fst (outs ! i) = []) \<and>
        (if complete ?n sched
         then \<exists>agg. CreateJsonPostTaskMulti tsp jm s w q tasks ops sched =
                      Some ((map fst outs, agg), w') \<and>
                    (agg = None) = (\<forall>i<?n. snd (outs ! i) = None)
         else CreateJsonPostTaskMulti tsp jm s w q tasks ops sched = None)"
    using l ok nil by (simp add: sc JsonPostTaskMulti_exact)
next
  let ?c = "\<lambda>i w. CreateGetTask tsp s w q (gtasks ! i) ops"
  let ?n = "length gtasks"
  obtain outs w' where sc: "seq_creates ?c ?n (call_order ?n sched) w = (outs, w')"
    by (cases "seq_creates ?c ?n (call_order ?n sched) w")
  have l: "length outs = ?n" using seq_creates_length[of ?c ?n "call_order ?n sched" w] sc by simp
  have ok: "\<forall>i<?n. snd (outs ! i) \<noteq> None \<longrightarrow> fst (outs ! i) = []"
    using seq_creates_ok[OF create_GetTask_ok, of _ ?n tsp s q gtasks ops "call_order ?n sched" w] sc
    by simp
  have nil: "complete ?n sched \<Longrightarrow>
      (ErrorOrNil (concat (map (\<lambda>i. appended (\<lambda>i. collect_GetTask i (gtasks ! i)) i (outs ! i))
          (collect_order ?n sched))) = None) = (\<forall>i<?n. snd (outs ! i) = None)"
    by (rule aggregate_nil[OF collect_GetTask_ok orders_complete(4)])
  show "case seq_creates ?c ?n (call_order ?n sched) w of
      (outs, w') \<Rightarrow>
        length outs = ?n \<and>
        (\<forall>i<?n. snd (outs ! i) \<noteq> None \<longrightarrow> fst (outs ! i) = []) \<and>
        (if complete ?n sched
         then \<exists>agg. CreateGetTaskMulti tsp s w q gtasks ops sched =
                      Some ((map fst outs, agg), w') \<and>
                    (agg = None) = (\<forall>i<?n. snd (outs ! i) = None)
         else CreateGetTaskMulti tsp s w q gtasks ops sched = None)"
    using l ok nil by (simp add: sc GetTaskMulti_exact)
next
  show "complete n sched \<longrightarrow>
      distinct (call_order n sched) \<and> set (call_order n sched) = {..<n}"
    by (simp add: orders_complete)
qed

text \<open>
  On the test double: two GET tasks of one name, on a complete schedule and on one
  that leaves the second goroutine unfinished; two POST tasks that both succeed.
\<close>

theorem CreateMulti_results_and_aggregate_witness:
  "complete (length [get_task ''dup'', get_task ''dup'']) [0, 1, 0, 1] \<and>
   (\<exists>agg w'. CreateGetTaskMulti fake_TimestampProto fake_Service fresh_World ci_queue
               [get_task ''dup'', get_task ''dup''] [] [0, 1, 0, 1] =
             Some (([''projects/ci/locations/asia/queues/box/tasks/dup'', []], agg), w') \<and>
             agg \<noteq> None \<and>
             provider w' = [''projects/ci/locations/asia/queues/box/tasks/dup''] \<and>
             length (sent w') = 2) \<and>
   CreateGetTaskMulti fake_TimestampProto fake_Service fresh_World ci_queue
     [get_task ''dup'', get_task ''dup''] [] [0, 1, 0] = None \<and>
   (\<exists>w'. CreateJsonPostTaskMulti fake_TimestampProto fake_Marshal fake_Service fresh_World ci_queue
            [post_task ''a'', post_task []] [] [1, 0, 0, 1] =
          Some (([''projects/ci/locations/asia/queues/box/tasks/a'',
                  ''projects/ci/locations/asia/queues/box/tasks/7''], None), w'))"
  using CreateMulti_results_and_aggregate[where tsp=fake_TimestampProto and jm=fake_Marshal and s=fake_Service
               and w=fresh_World and q=ci_queue and tasks="[post_task ''a'', post_task []]"
               and ops="[]" and sched="[1, 0, 0, 1]"
               and gtasks="[get_task ''dup'', get_task ''dup'']" and n=2]
        CreateMulti_results_and_aggregate[where tsp=fake_TimestampProto and jm=fake_Marshal and s=fake_Service
               and w=fresh_World and q=ci_queue and tasks="[post_task ''a'', post_task []]"
               and ops="[]" and sched="[0, 1, 0, 1]"
               and gtasks="[get_task ''dup'', get_task ''dup'']" and n=2]
        CreateMulti_results_and_aggregate[where tsp=fake_TimestampProto and jm=fake_Marshal and s=fake_Service
               and w=fresh_World and q=ci_queue and tasks="[post_task ''a'', post_task []]"
               and ops="[]" and sched="[0, 1, 0]"
               and gtasks="[get_task ''dup'', get_task ''dup'']" and n=2]
  by (auto simp: model_defs sched_defs upt_rec[of 0] upt_rec[of "Suc 0"] upt_rec[of "Suc (Suc 0)"]
        All_less_Suc numeral_2_eq_2)

text \<open>
  C4. The aggregate of a multi-create is exactly this list: for every item, in the
  order in which the goroutines collect, nothing if its single-create succeeded and
  one error if it failed with \<open>e\<close>: when \<open>e\<close> wraps an error of this package with code
  AlreadyExists, that error with its code kept and \<open>index\<close> set to the item's position in
  its context; otherwise a CreateMultiTaskFailure error with \<open>index\<close>, \<open>taskName\<close> and
  \<open>URI\<close> of the item in its context and \<open>e\<close> as its cause. On a complete schedule every item
  is collected exactly once. Stated for \<open>CreateJsonPostTaskMulti\<close> and for
  \<open>CreateGetTaskMulti\<close>.
\<close>

theorem CreateMulti_aggregate_entries:
  "CreateJsonPostTaskMulti tsp jm s w q tasks ops sched =
     (if complete (length tasks) sched
      then (case seq_creates (\<lambda>i w. CreateJsonPostTask tsp jm s w q (tasks ! i) ops)
                   (length tasks) (call_order (length tasks) sched) w of
              (outs, w') \<Rightarrow>
                Some ((map fst outs,
                       ErrorOrNil (concat (map
                         (\<lambda>i. case snd (outs ! i) of
                                None \<Rightarrow> []
                              | Some e \<Rightarrow>
                                  [case xerrors_As e of
                                     Some a \<Rightarrow>
                                       if Code a = AlreadyExists
                                       then AppError (Error AlreadyExists (Message a)
                                              ((KV a)(''index'' \<mapsto> KInt (int i))) (cause a))
                                       else AppError (Error CreateMultiTaskFailure
                                              ''failed CreateJsonPostTask''
                                              [''index'' \<mapsto> KInt (int i),
                                               ''taskName'' \<mapsto> KString (JsonPostTask.Name (tasks ! i)),
                                               ''URI'' \<mapsto> KString (JsonPostTask.RelativeURI (tasks ! i))]
                                              (Some e))
                                   | None \<Rightarrow>
                                       AppError (Error CreateMultiTaskFailure
                                         ''failed CreateJsonPostTask''
                                         [''index'' \<mapsto> KInt (int i),
                                          ''taskName'' \<mapsto> KString (JsonPostTask.Name (tasks ! i)),
                                          ''URI'' \<mapsto> KString (JsonPostTask.RelativeURI (tasks ! i))]
                                         (Some e))])
                         (collect_order (length tasks) sched)))), w'))
      else None) \<and>
   CreateGetTaskMulti tsp s w q gtasks ops sched =
     (if complete (length gtasks) sched
      then (case seq_creates (\<lambda>i w. CreateGetTask tsp s w q (gtasks ! i) ops)
                   (length gtasks) (call_order (length gtasks) sched) w of
              (outs, w') \<Rightarrow>
                Some ((map fst outs,
                       ErrorOrNil (concat (map
                         (\<lambda>i. case snd (outs ! i) of
                                None \<Rightarrow> []
                              | Some e \<Rightarrow>
                                  [case xerrors_As e of
                                     Some a \<Rightarrow>
                                       if Code a = AlreadyExists
                                       then AppError (Error AlreadyExists (Message a)
                                              ((KV a)(''index'' \<mapsto> KInt (int i))) (cause a))
                                       else AppError (Error CreateMultiTaskFailure
                                              ''failed CreateGetTask''
                                              [''index'' \<mapsto> KInt (int i),
                                               ''taskName'' \<mapsto> KString (GetTask.Name (gtasks ! i)),
                                               ''URI'' \<mapsto> KString (GetTask.RelativeURI (gtasks ! i))]
                                              (Some e))
                                   | None \<Rightarrow>
                                       AppError (Error CreateMultiTaskFailure
                                         ''failed CreateGetTask''
                                         [''index'' \<mapsto> KInt (int i),
                                          ''taskName'' \<mapsto> KString (GetTask.Name (gtasks ! i)),
                                          ''URI'' \<mapsto> KString (GetTask.RelativeURI (gtasks ! i))]
                                         (Some e))])
                         (collect_order (length gtasks) sched)))), w'))
      else None) \<and>
   (complete n sched \<longrightarrow>
      distinct (collect_order n sched) \<and> set (collect_order n sched) = {..<n} \<and>
      distinct (call_order n sched) \<and> set (call_order n sched) = {..<n})"
  by (simp add: JsonPostTaskMulti_exact GetTaskMulti_exact appended_JsonPostTask_cases
        appended_GetTask_cases orders_complete)

text \<open>
  On the test double: three GET tasks, two of one name and one scheduled before year 1.
  The duplicate is kept as AlreadyExists with index 1, the unconvertible one becomes a
  CreateMultiTaskFailure with index 2, and nothing else is in the aggregate.
\<close>

theorem CreateMulti_aggregate_entries_witness:
  "\<exists>w'. CreateGetTaskMulti fake_TimestampProto fake_Service fresh_World ci_queue
          [get_task ''dup'', get_task ''dup'', (get_task ''late'')\<lparr>GetTask.ScheduledTime := - 5\<rparr>]
          [] [2, 0, 1, 0, 1, 2] =
        Some (([''projects/ci/locations/asia/queues/box/tasks/dup'', [], []],
               Some [AppError (Error AlreadyExists
                       ''projects/ci/locations/asia/queues/box/tasks/dup is already exists.''
                       [''taskName'' \<mapsto> KString ''projects/ci/locations/asia/queues/box/tasks/dup'',
                        ''index'' \<mapsto> KInt 1]
                       (Some (GrpcStatus codes_AlreadyExists ''task already exists''))),
                     AppError (Error CreateMultiTaskFailure ''failed CreateGetTask''
                       [''index'' \<mapsto> KInt 2, ''taskName'' \<mapsto> KString ''late'',
                        ''URI'' \<mapsto> KString ''/run'']
                       (Some (Errorf ''failed CreateJsonPostTask(). queue=%+v, url=%s : %w''
                          (AppError (Error InvalidArgument ''invalid ScheduleTime''
                             [''ScheduledTime'' \<mapsto> KTime (- 5)]
                             (Some (Opaque ''timestamp: before 0001-01-01'')))))))]),
              w') \<and>
        provider w' = [''projects/ci/locations/asia/queues/box/tasks/dup''] \<and>
        length (sent w') = 2"
  using CreateMulti_aggregate_entries[of fake_TimestampProto fake_Marshal fake_Service fresh_World ci_queue "[]" "[]"
               "[2, 0, 1, 0, 1, 2]"
               "[get_task ''dup'', get_task ''dup'', (get_task ''late'')\<lparr>GetTask.ScheduledTime := - 5\<rparr>]"
               3]
  by (simp add: model_defs sched_defs upt_rec[of 0] upt_rec[of "Suc 0"] upt_rec[of "Suc (Suc 0)"])

text \<open>
  C10. On the empty list both multi-creates return, whatever the schedule, the empty
  result and a nil aggregate, and leave the world as it was: no single-create ran and
  no request reached the client.
\<close>

theorem CreateMulti_empty:
  "CreateJsonPostTaskMulti tsp jm s w q [] ops sched = Some (([], None), w) \<and>
   CreateGetTaskMulti tsp s w q [] ops sched = Some (([], None), w)"
proof -
  have a: "run_JsonPostTaskMulti tsp jm s w q [] ops sched = fan_init 0 w"
    by (simp add: run_JsonPostTaskMulti_def fan_empty)
  have b: "run_GetTaskMulti tsp s w q [] ops sched = fan_init 0 w"
    by (simp add: run_GetTaskMulti_def fan_empty)
  show ?thesis
    by (simp add: CreateJsonPostTaskMulti_def CreateGetTaskMulti_def a b fan_wait_def
          fan_init_def ErrorOrNil_def)
qed

end
